theory Spec2Isabelle
  imports Main
begin

section \<open>Values of the runtime and of the ledger SDK\<close>

text \<open>
  A value that a \<^verbatim>\<open>throw\<close> raises and a \<^verbatim>\<open>catch\<close> receives: an \<^verbatim>\<open>Error\<close> object with its
  message, or any other value. Every catch block of the program reads it through
  \<^verbatim>\<open>error instanceof Error ? error.message : "Unknown error"\<close>.
\<close>

datatype thrown = Error string | NonError

definition errorMessage :: "thrown \<Rightarrow> string" where
  "errorMessage e = (case e of Error m \<Rightarrow> m | NonError \<Rightarrow> ''Unknown error'')"

text \<open>
  Truthiness of an optional boolean field: \<^verbatim>\<open>undefined\<close> is falsy, as \<^verbatim>\<open>false\<close> is.
\<close>

definition truthy_bool :: "bool option \<Rightarrow> bool" where
  "truthy_bool b = (case b of None \<Rightarrow> False | Some v \<Rightarrow> v)"

text \<open>
  The SDK's types. A public key is identified with its base58 text, a transaction is the
  list of its instructions with the blockhash and the fee payer. A connection is an object
  with two operations; each one acts on the state \<open>'w\<close> of the remote ledger and either
  returns or throws.
\<close>

datatype PublicKey = PublicKey (toBase58: string)

datatype Keypair = Keypair (publicKey: PublicKey) (secretKey: "nat list")

datatype Commitment = Processed | Confirmed | Finalized

datatype Instruction =
    TransactionInstruction (keys: "PublicKey list") (programId: PublicKey) (data: string)
  | SystemTransfer (fromPubkey: PublicKey) (toPubkey: PublicKey) (lamports: nat)

record Transaction =
  instructions :: "Instruction list"
  recentBlockhash :: "string option"
  feePayer :: "PublicKey option"

datatype ConfirmOptions = ConfirmOptions Commitment bool

record 'w Connection =
  getLatestBlockhash :: "'w \<Rightarrow> (thrown + string) \<times> 'w"
  sendAndConfirmTransaction ::
    "Transaction \<Rightarrow> Keypair list \<Rightarrow> ConfirmOptions \<Rightarrow> 'w \<Rightarrow> (thrown + string) \<times> 'w"

section \<open>types.ts\<close>

record SolanaConfig =
  rpcUrl :: string
  wsUrl :: string
  network :: string
  commitment :: Commitment
  skipPreflight :: bool
  walletPath :: "string option"
  privateKey :: "string option"

record FileValidationResult =
  isValid :: bool
  addresses :: "string list"
  validAddresses :: "PublicKey list"
  invalidAddresses :: "string list"
  error :: "string option"

text \<open>
  The configurations share their fields as the interfaces do:
  \<open>MemoOnlyConfig\<close> is \<^verbatim>\<open>Omit<MessageConfig, "recipientAddress">\<close>,
  \<open>BulkOptions\<close> is \<^verbatim>\<open>Omit<BulkMessageConfig, "recipientAddresses">\<close>.
\<close>

record 'w MemoOnlyConfig =
  message :: string
  senderKeypair :: Keypair
  connection :: "'w Connection option"
  commitment :: "Commitment option"
  skipPreflight :: "bool option"

record 'w MessageConfig = "'w MemoOnlyConfig" +
  recipientAddress :: PublicKey

record 'w BulkOptions = "'w MemoOnlyConfig" +
  delayBetweenTx :: "int option"
  continueOnError :: "bool option"

record 'w BulkMessageConfig = "'w BulkOptions" +
  recipientAddresses :: "PublicKey list"

record 'w BulkMemoConfig = "'w BulkOptions" +
  messages :: "string list option"

record 'w FileRecipientConfig = "'w BulkOptions" +
  recipientsFile :: string

record TransactionResult =
  signature :: string
  success :: bool
  error :: "string option"
  explorerUrl :: "string option"

record BulkTransactionResult = TransactionResult +
  recipientAddress :: string

text \<open>
  \<open>BulkMessageResult\<close> is the three accumulators of the bulk loops (\<open>BulkTotals\<close>)
  with the flag computed from them at the end.
\<close>

record BulkTotals =
  totalSent :: nat
  totalFailed :: nat
  results :: "BulkTransactionResult list"

record BulkMessageResult = BulkTotals +
  overallSuccess :: bool

section \<open>config.ts\<close>

definition getExplorerUrl :: "string \<Rightarrow> string \<Rightarrow> string" where
  "getExplorerUrl sig net =
     (let cluster = (if net = ''mainnet-beta'' then '''' else ''?cluster='' @ net)
      in ''https://explorer.solana.com/tx/'' @ sig @ cluster)"

section \<open>messageSender.ts: the single operations\<close>

datatype 'w SolanaMessageSender =
  SolanaMessageSender (this_connection: "'w Connection") (this_config: SolanaConfig)

definition memoProgramId :: PublicKey where
  "memoProgramId = PublicKey ''MemoSq4gqABAXKb96qnH8TysNcWxMyWCqXgDLGmfcHr''"

text \<open>The catch block of \<open>sendMessage\<close> and of \<open>sendMemoOnly\<close>.\<close>

definition failed :: "thrown \<Rightarrow> TransactionResult" where
  "failed e = \<lparr>signature = '''', success = False, error = Some (errorMessage e),
                explorerUrl = None\<rparr>"

text \<open>
  The part the two single operations share after the transaction is built: fetch the
  blockhash, set it and the fee payer, send and confirm, derive the explorer link.
  A throw of either SDK call lands in the catch block.
\<close>

definition submit ::
  "'w SolanaMessageSender \<Rightarrow> ('w, 'x) MemoOnlyConfig_scheme \<Rightarrow> Instruction list \<Rightarrow> 'w
     \<Rightarrow> TransactionResult \<times> 'w" where
  "submit this config instrs w =
     (let conn = (case connection config of Some c \<Rightarrow> c | None \<Rightarrow> this_connection this)
      in case getLatestBlockhash conn w of
           (Inl e, w1) \<Rightarrow> (failed e, w1)
         | (Inr blockhash, w1) \<Rightarrow>
             (let transaction = \<lparr>instructions = instrs, recentBlockhash = Some blockhash,
                                  feePayer = Some (publicKey (senderKeypair config))\<rparr>;
                  opts = ConfirmOptions
                    (case commitment config of Some c \<Rightarrow> c
                       | None \<Rightarrow> SolanaConfig.commitment (this_config this))
                    (case skipPreflight config of Some True \<Rightarrow> True
                       | _ \<Rightarrow> SolanaConfig.skipPreflight (this_config this))
              in case sendAndConfirmTransaction conn transaction [senderKeypair config] opts w1 of
                   (Inl e, w2) \<Rightarrow> (failed e, w2)
                 | (Inr sig, w2) \<Rightarrow>
                     (\<lparr>signature = sig, success = True, error = None,
                       explorerUrl = Some (getExplorerUrl sig (network (this_config this)))\<rparr>,
                      w2)))"

definition sendMessage ::
  "'w SolanaMessageSender \<Rightarrow> 'w MessageConfig \<Rightarrow> 'w \<Rightarrow> TransactionResult \<times> 'w" where
  "sendMessage this config w =
     (let memoInstruction = TransactionInstruction [] memoProgramId (message config);
          transferInstruction =
            SystemTransfer (publicKey (senderKeypair config))
              (MessageConfig.recipientAddress config) 1000
      in submit this config [memoInstruction, transferInstruction] w)"

definition sendMemoOnly ::
  "'w SolanaMessageSender \<Rightarrow> 'w MemoOnlyConfig \<Rightarrow> 'w \<Rightarrow> TransactionResult \<times> 'w" where
  "sendMemoOnly this config w =
     (let memoInstruction = TransactionInstruction [] memoProgramId (message config)
      in submit this config [memoInstruction] w)"

section \<open>messageSender.ts: the bulk loops\<close>

text \<open>
  The effects of a bulk run that can be observed from outside are the calls of the
  single-operation method and the awaited timers. The model keeps them in a log, in the
  order in which they happen: \<open>Invoke i args out\<close> is the call made by iteration \<open>i\<close> with
  the configuration \<open>args\<close>, which returned (\<open>Inr\<close>) or threw (\<open>Inl\<close>) the value \<open>out\<close>;
  \<open>Sleep d\<close> is an awaited \<^verbatim>\<open>setTimeout(resolve, d)\<close>. Console output is not modelled.
\<close>

datatype 'a event = is_Invoke: Invoke nat 'a "thrown + TransactionResult" | Sleep int

record ('w, 'a) LoopState = BulkTotals +
  world :: 'w
  events :: "'a event list"

record ('w, 'a) Run = BulkMessageResult +
  after :: 'w
  trace :: "'a event list"

datatype ctl = Continue | Break

text \<open>
  The single-operation method a bulk loop calls is \<^verbatim>\<open>this.sendMessage\<close> (or
  \<^verbatim>\<open>this.sendMemoOnly\<close>), bound when the call happens; the loops take it as the parameter
  \<open>send\<close>, a method that may return or throw. \<open>returning\<close> turns a method that always
  returns, as the two of this class do, into such a parameter.
\<close>

type_synonym ('w, 'a) client = "'a \<Rightarrow> 'w \<Rightarrow> (thrown + TransactionResult) \<times> 'w"

definition returning :: "('a \<Rightarrow> 'w \<Rightarrow> TransactionResult \<times> 'w) \<Rightarrow> ('w, 'a) client" where
  "returning method args w = (case method args w of (result, w') \<Rightarrow> (Inr result, w'))"

text \<open>
  \<^verbatim>\<open>if (config.delayBetweenTx && i < n - 1) await new Promise(...)\<close>, with the
  subtraction on integers as in the source. The delay is a number of milliseconds, an
  integer here; an absent delay and the delay 0 are falsy.
\<close>

definition delay_step ::
  "int option \<Rightarrow> nat \<Rightarrow> nat \<Rightarrow> ('w, 'a) LoopState \<Rightarrow> ('w, 'a) LoopState" where
  "delay_step delay n i st =
     (case delay of
        None \<Rightarrow> st
      | Some d \<Rightarrow> if d \<noteq> 0 \<and> int i < int n - 1 then st\<lparr>events := events st @ [Sleep d]\<rparr> else st)"

text \<open>
  The loops of \<open>sendBulkMessages\<close> and of \<open>sendBulkMemoOnly\<close> are the same statements
  but for the work list, the text put in \<open>recipientAddress\<close> and the method called; the
  model has one body for both, with the configuration \<open>args\<close> of the call and the text
  \<open>target\<close> as parameters.

  The try block of one iteration. Only the call of the method can throw; the log and the
  ledger keep what happened before the throw.
\<close>

definition try_block ::
  "('w, 'a) client \<Rightarrow> ('w, 'x) BulkOptions_scheme \<Rightarrow> nat \<Rightarrow> nat \<Rightarrow> 'a \<Rightarrow> string
     \<Rightarrow> ('w, 'a) LoopState \<Rightarrow> (thrown + ctl) \<times> ('w, 'a) LoopState" where
  "try_block send config n i args target st =
     (case send args (world st) of
        (Inl e, w) \<Rightarrow> (Inl e, st\<lparr>world := w, events := events st @ [Invoke i args (Inl e)]\<rparr>)
      | (Inr result, w) \<Rightarrow>
          (let st1 = st\<lparr>world := w, events := events st @ [Invoke i args (Inr result)]\<rparr>
           in if success result then
                (Inr Continue,
                 delay_step (delayBetweenTx config) n i
                   (st1\<lparr>totalSent := totalSent st1 + 1,
                        results := results st1 @
                          [\<lparr>signature = signature result, success = True, error = None,
                            explorerUrl = explorerUrl result, recipientAddress = target\<rparr>]\<rparr>))
              else
                (let st2 = st1\<lparr>totalFailed := totalFailed st1 + 1,
                               results := results st1 @
                                 [\<lparr>signature = '''', success = False, error = error result,
                                   explorerUrl = None, recipientAddress = target\<rparr>]\<rparr>
                 in if \<not> truthy_bool (continueOnError config) then (Inr Break, st2)
                    else (Inr Continue, delay_step (delayBetweenTx config) n i st2))))"

definition catch_block ::
  "('w, 'x) BulkOptions_scheme \<Rightarrow> string \<Rightarrow> thrown \<Rightarrow> ('w, 'a) LoopState
     \<Rightarrow> ctl \<times> ('w, 'a) LoopState" where
  "catch_block config target e st =
     (let st1 = st\<lparr>totalFailed := totalFailed st + 1,
                    results := results st @
                      [\<lparr>signature = '''', success = False, error = Some (errorMessage e),
                        explorerUrl = None, recipientAddress = target\<rparr>]\<rparr>
      in if \<not> truthy_bool (continueOnError config) then (Break, st1) else (Continue, st1))"

definition loop_body ::
  "('w, 'a) client \<Rightarrow> ('w, 'x) BulkOptions_scheme \<Rightarrow> nat \<Rightarrow> (nat \<Rightarrow> 'a) \<Rightarrow> (nat \<Rightarrow> string)
     \<Rightarrow> nat \<Rightarrow> ('w, 'a) LoopState \<Rightarrow> ctl \<times> ('w, 'a) LoopState" where
  "loop_body send config n argsOf targetOf i st =
     (case try_block send config n i (argsOf i) (targetOf i) st of
        (Inl e, st') \<Rightarrow> catch_block config (targetOf i) e st'
      | (Inr c, st') \<Rightarrow> (c, st'))"

text \<open>\<^verbatim>\<open>for (let i = ...; i < n; i++) { body }\<close>, where the body may \<^verbatim>\<open>break\<close>.\<close>

function for_loop :: "(nat \<Rightarrow> 's \<Rightarrow> ctl \<times> 's) \<Rightarrow> nat \<Rightarrow> nat \<Rightarrow> 's \<Rightarrow> 's" where
  "for_loop body n i st =
     (if i < n then
        (case body i st of
           (Break, st') \<Rightarrow> st'
         | (Continue, st') \<Rightarrow> for_loop body n (Suc i) st')
      else st)"
  by pat_completeness auto
termination
  by (relation "measure (\<lambda>(body, n, i, st). n - i)") auto

text \<open>The states of the loop after each of its iterations, in order.\<close>

function iterations :: "(nat \<Rightarrow> 's \<Rightarrow> ctl \<times> 's) \<Rightarrow> nat \<Rightarrow> nat \<Rightarrow> 's \<Rightarrow> 's list" where
  "iterations body n i st =
     (if i < n then
        (case body i st of
           (Break, st') \<Rightarrow> [st']
         | (Continue, st') \<Rightarrow> st' # iterations body n (Suc i) st')
      else [])"
  by pat_completeness auto
termination
  by (relation "measure (\<lambda>(body, n, i, st). n - i)") auto

definition initial :: "'w \<Rightarrow> ('w, 'a) LoopState" where
  "initial w = \<lparr>totalSent = 0, totalFailed = 0, results = [], world = w, events = []\<rparr>"

definition summary :: "('w, 'a) LoopState \<Rightarrow> ('w, 'a) Run" where
  "summary st = \<lparr>totalSent = totalSent st, totalFailed = totalFailed st, results = results st,
                  overallSuccess = (totalFailed st = 0), after = world st, trace = events st\<rparr>"

definition messageArgs :: "'w BulkMessageConfig \<Rightarrow> nat \<Rightarrow> 'w MessageConfig" where
  "messageArgs config i =
     \<lparr>message = message config, senderKeypair = senderKeypair config,
      connection = connection config, commitment = commitment config,
      skipPreflight = skipPreflight config,
      MessageConfig.recipientAddress = recipientAddresses config ! i\<rparr>"

definition bulkMessagesBody ::
  "('w, 'w MessageConfig) client \<Rightarrow> 'w BulkMessageConfig \<Rightarrow> nat
     \<Rightarrow> ('w, 'w MessageConfig) LoopState \<Rightarrow> ctl \<times> ('w, 'w MessageConfig) LoopState" where
  "bulkMessagesBody send config =
     loop_body send config (length (recipientAddresses config)) (messageArgs config)
       (\<lambda>i. toBase58 (recipientAddresses config ! i))"

definition sendBulkMessages ::
  "('w, 'w MessageConfig) client \<Rightarrow> 'w BulkMessageConfig \<Rightarrow> 'w
     \<Rightarrow> ('w, 'w MessageConfig) Run" where
  "sendBulkMessages send config w =
     summary (for_loop (bulkMessagesBody send config) (length (recipientAddresses config)) 0
                (initial w))"

definition memoMessages :: "'w BulkMemoConfig \<Rightarrow> string list" where
  "memoMessages config = (case messages config of Some ms \<Rightarrow> ms | None \<Rightarrow> [message config])"

definition memoArgs :: "'w BulkMemoConfig \<Rightarrow> nat \<Rightarrow> 'w MemoOnlyConfig" where
  "memoArgs config i =
     \<lparr>message = memoMessages config ! i, senderKeypair = senderKeypair config,
      connection = connection config, commitment = commitment config,
      skipPreflight = skipPreflight config\<rparr>"

definition bulkMemoBody ::
  "('w, 'w MemoOnlyConfig) client \<Rightarrow> 'w BulkMemoConfig \<Rightarrow> nat
     \<Rightarrow> ('w, 'w MemoOnlyConfig) LoopState \<Rightarrow> ctl \<times> ('w, 'w MemoOnlyConfig) LoopState" where
  "bulkMemoBody send config =
     loop_body send config (length (memoMessages config)) (memoArgs config) (\<lambda>i. ''memo-only'')"

definition sendBulkMemoOnly ::
  "('w, 'w MemoOnlyConfig) client \<Rightarrow> 'w BulkMemoConfig \<Rightarrow> 'w
     \<Rightarrow> ('w, 'w MemoOnlyConfig) Run" where
  "sendBulkMemoOnly send config w =
     summary (for_loop (bulkMemoBody send config) (length (memoMessages config)) 0 (initial w))"

section \<open>walletUtils.ts and fileUtils.ts\<close>

text \<open>
  The SDK's constructor \<^verbatim>\<open>new PublicKey(address)\<close> is the parameter \<open>newPublicKey\<close>: it
  returns the key or throws. The file system is two operations of \<^verbatim>\<open>node:fs/promises\<close>,
  each of which resolves or rejects.
\<close>

type_synonym keyParser = "string \<Rightarrow> thrown + PublicKey"

record FileSystem =
  access :: "string \<Rightarrow> thrown + unit"
  readFile :: "string \<Rightarrow> thrown + string"

definition isValidPublicKey :: "keyParser \<Rightarrow> string \<Rightarrow> bool" where
  "isValidPublicKey newPublicKey address =
     (case newPublicKey address of Inl _ \<Rightarrow> False | Inr _ \<Rightarrow> True)"

definition toPublicKey :: "keyParser \<Rightarrow> string \<Rightarrow> thrown + PublicKey" where
  "toPublicKey newPublicKey address =
     (if \<not> isValidPublicKey newPublicKey address
      then Inl (Error (''Invalid Solana address: '' @ address))
      else newPublicKey address)"

definition checkRecipientsFile :: "FileSystem \<Rightarrow> string \<Rightarrow> bool" where
  "checkRecipientsFile fs filePath =
     (case access fs filePath of Inl _ \<Rightarrow> False | Inr _ \<Rightarrow> True)"

text \<open>
  The string operations of the runtime that \<open>readRecipientsFile\<close> uses:
  \<^verbatim>\<open>split("\n")\<close>, \<^verbatim>\<open>trim()\<close>, \<^verbatim>\<open>startsWith("#")\<close> and \<^verbatim>\<open>join(", ")\<close>. A string is the
  sequence of the UTF-8 bytes of its text, as the file holds it. In UTF-8 the bytes of a
  code point occur only where that code point stands, so what the runtime does on code
  points can be done on their encodings.
\<close>

fun split_newline :: "string \<Rightarrow> string list" where
  "split_newline [] = ['''']"
| "split_newline (c # cs) =
     (if c = CHR 0x0A then [] # split_newline cs
      else (c # hd (split_newline cs)) # tl (split_newline cs))"

text \<open>
  \<^verbatim>\<open>trim()\<close> removes, from both ends, the code points that the language counts as white
  space or as line terminators: U+0009 to U+000D, U+0020, U+00A0, U+1680, U+2000 to
  U+200A, U+2028, U+2029, U+202F, U+205F, U+3000 and U+FEFF (the byte order mark).
  \<open>whiteSpaces\<close> lists their encodings: the six of one byte, those of U+2000 to
  U+200A, U+2028, U+2029 and U+202F, which start with the bytes E2 80, and the other
  five.
\<close>

definition whiteSpaces :: "string list" where
  "whiteSpaces =
     map (\<lambda>c. [c]) [CHR 0x09, CHR 0x0A, CHR 0x0B, CHR 0x0C, CHR 0x0D, CHR 0x20] @
     map (\<lambda>c. [CHR 0xE2, CHR 0x80, c])
       [CHR 0x80, CHR 0x81, CHR 0x82, CHR 0x83, CHR 0x84, CHR 0x85, CHR 0x86, CHR 0x87,
        CHR 0x88, CHR 0x89, CHR 0x8A, CHR 0xA8, CHR 0xA9, CHR 0xAF] @
     ([CHR 0xC2, CHR 0xA0] # [CHR 0xE1, CHR 0x9A, CHR 0x80] # [CHR 0xE2, CHR 0x81, CHR 0x9F] #
      [CHR 0xE3, CHR 0x80, CHR 0x80] # [CHR 0xEF, CHR 0xBB, CHR 0xBF] # [])"

definition hasPrefix :: "string \<Rightarrow> string \<Rightarrow> bool" where
  "hasPrefix s p = (take (length p) s = p)"

text \<open>\<open>strip seqs s\<close> removes from the front of \<open>s\<close> every leading sequence of \<open>seqs\<close>.\<close>

function strip :: "string list \<Rightarrow> string \<Rightarrow> string" where
  "strip seqs s =
     (case find (\<lambda>ws. ws \<noteq> [] \<and> hasPrefix s ws) seqs of
        None \<Rightarrow> s
      | Some ws \<Rightarrow> strip seqs (drop (length ws) s))"
  by pat_completeness auto
termination
proof (relation "measure (\<lambda>(seqs, s). length s)")
  show "wf (measure (\<lambda>(seqs, s). length s))" by simp
next
  fix seqs :: "string list" and s ws :: string
  assume "find (\<lambda>ws. ws \<noteq> [] \<and> hasPrefix s ws) seqs = Some ws"
  then have "ws \<noteq> []" and "take (length ws) s = ws"
    by (auto simp: find_Some_iff hasPrefix_def)
  then have "s \<noteq> []" by auto
  with \<open>ws \<noteq> []\<close> show "((seqs, drop (length ws) s), (seqs, s)) \<in> measure (\<lambda>(seqs, s). length s)"
    by simp
qed

definition trim :: "string \<Rightarrow> string" where
  "trim s = rev (strip (map rev whiteSpaces) (rev (strip whiteSpaces s)))"

definition startsWithHash :: "string \<Rightarrow> bool" where
  "startsWithHash s = (case s of [] \<Rightarrow> False | c # _ \<Rightarrow> c = CHR ''#'')"

fun join :: "string \<Rightarrow> string list \<Rightarrow> string" where
  "join sep [] = []"
| "join sep [x] = x"
| "join sep (x # y # ys) = x @ sep @ join sep (y # ys)"

text \<open>
  The loop of \<open>readRecipientsFile\<close> over the lines: a line that \<open>toPublicKey\<close> accepts is
  pushed on \<open>validAddresses\<close>, one on which it throws is pushed on \<open>invalidAddresses\<close>.
\<close>

fun validateAddresses ::
  "keyParser \<Rightarrow> string list \<Rightarrow> PublicKey list \<Rightarrow> string list \<Rightarrow> PublicKey list \<times> string list" where
  "validateAddresses newPublicKey [] valid invalid = (valid, invalid)"
| "validateAddresses newPublicKey (address # rest) valid invalid =
     (case toPublicKey newPublicKey address of
        Inr key \<Rightarrow> validateAddresses newPublicKey rest (valid @ [key]) invalid
      | Inl _ \<Rightarrow> validateAddresses newPublicKey rest valid (invalid @ [address]))"

definition readRecipientsFile ::
  "FileSystem \<Rightarrow> keyParser \<Rightarrow> string \<Rightarrow> FileValidationResult" where
  "readRecipientsFile fs newPublicKey filePath =
     (if \<not> checkRecipientsFile fs filePath then
        \<lparr>isValid = False, addresses = [], validAddresses = [], invalidAddresses = [],
         FileValidationResult.error =
           Some (''Recipients file '' @ [CHR 0x27] @ filePath @ [CHR 0x27]
                 @ '' does not exist or is not readable'')\<rparr>
      else
        (case readFile fs filePath of
           Inl e \<Rightarrow>
             \<lparr>isValid = False, addresses = [], validAddresses = [], invalidAddresses = [],
              FileValidationResult.error =
                Some (case e of Error m \<Rightarrow> m
                        | NonError \<Rightarrow> ''Unknown error reading recipients file'')\<rparr>
         | Inr fileContent \<Rightarrow>
             (let lines = filter (\<lambda>line. length line > 0 \<and> \<not> startsWithHash line)
                            (map trim (split_newline fileContent))
              in if length lines = 0 then
                   \<lparr>isValid = False, addresses = [], validAddresses = [], invalidAddresses = [],
                    FileValidationResult.error =
                      Some (''No valid addresses found in '' @ [CHR 0x27] @ filePath @ [CHR 0x27]
                            @ ''. File is empty or contains only comments.'')\<rparr>
                 else
                   (case validateAddresses newPublicKey lines [] [] of
                      (valid, invalid) \<Rightarrow>
                        \<lparr>isValid = (length invalid = 0 \<and> length valid > 0),
                         addresses = lines, validAddresses = valid, invalidAddresses = invalid,
                         FileValidationResult.error =
                           (if length invalid > 0
                            then Some (''Invalid addresses found: '' @ join '', '' invalid)
                            else None)\<rparr>))))"

definition validateRecipients :: "FileValidationResult \<Rightarrow> thrown + unit" where
  "validateRecipients validation =
     (if \<not> isValid validation then
        Inl (Error (case FileValidationResult.error validation of
                      None \<Rightarrow> ''Invalid recipients file''
                    | Some m \<Rightarrow> if m = [] then ''Invalid recipients file'' else m))
      else if length (validAddresses validation) = 0 then
        Inl (Error ''No valid addresses found in recipients file'')
      else Inr ())"

section \<open>messageSender.ts: sending to the recipients of a file\<close>

definition nothingSent :: "'w \<Rightarrow> ('w, 'a) Run" where
  "nothingSent w = \<lparr>totalSent = 0, totalFailed = 0, results = [], overallSuccess = False,
                     after = w, trace = []\<rparr>"

definition sendMessagesFromFile ::
  "FileSystem \<Rightarrow> keyParser \<Rightarrow> ('w, 'w MessageConfig) client \<Rightarrow> 'w FileRecipientConfig \<Rightarrow> 'w
     \<Rightarrow> ('w, 'w MessageConfig) Run" where
  "sendMessagesFromFile fs newPublicKey send config w =
     (let validation = readRecipientsFile fs newPublicKey (recipientsFile config)
      in if \<not> isValid validation then nothingSent w
         else
           (case validateRecipients validation of
              Inl e \<Rightarrow> nothingSent w
            | Inr _ \<Rightarrow>
                (let bulkConfig =
                       \<lparr>message = message config, senderKeypair = senderKeypair config,
                        connection = connection config, commitment = commitment config,
                        skipPreflight = skipPreflight config,
                        delayBetweenTx = delayBetweenTx config,
                        continueOnError = continueOnError config,
                        recipientAddresses = validAddresses validation\<rparr>
                 in sendBulkMessages send bulkConfig w)))"

section \<open>Vocabulary of the properties\<close>

text \<open>
  The calls of a log in the order they were made: the index of the iteration, the
  configuration passed and what the method returned or threw.
\<close>

fun calls :: "'a event list \<Rightarrow> (nat \<times> 'a \<times> (thrown + TransactionResult)) list" where
  "calls [] = []"
| "calls (Invoke i a out # es) = (i, a, out) # calls es"
| "calls (Sleep d # es) = calls es"

text \<open>A call went well when the method returned a result that reports success.\<close>

definition ok :: "thrown + TransactionResult \<Rightarrow> bool" where
  "ok out = (case out of Inl _ \<Rightarrow> False | Inr r \<Rightarrow> success r)"

text \<open>The entry a bulk loop is to record for a work item, from the outcome of its call.\<close>

definition entry :: "string \<Rightarrow> thrown + TransactionResult \<Rightarrow> BulkTransactionResult" where
  "entry target out =
     (case out of
        Inl e \<Rightarrow> \<lparr>signature = '''', success = False, error = Some (errorMessage e),
                   explorerUrl = None, recipientAddress = target\<rparr>
      | Inr r \<Rightarrow>
          if success r
          then \<lparr>signature = signature r, success = True, error = None,
                explorerUrl = explorerUrl r, recipientAddress = target\<rparr>
          else \<lparr>signature = '''', success = False, error = error r,
                explorerUrl = None, recipientAddress = target\<rparr>)"

text \<open>The timers awaited at the end of iteration \<open>i\<close> of \<open>n\<close>.\<close>

definition pause :: "int option \<Rightarrow> nat \<Rightarrow> nat \<Rightarrow> 'a event list" where
  "pause delay n i =
     (case delay of None \<Rightarrow> [] | Some d \<Rightarrow> if d \<noteq> 0 \<and> Suc i < n then [Sleep d] else [])"

text \<open>
  \<open>separate s xs\<close> puts exactly one \<open>s\<close> between any two consecutive elements of \<open>xs\<close>,
  and none before the first or after the last.
\<close>

fun separate :: "'a \<Rightarrow> 'a list \<Rightarrow> 'a list" where
  "separate s [] = []"
| "separate s [x] = [x]"
| "separate s (x # y # ys) = x # s # separate s (y # ys)"

text \<open>The first entry of a results list that reports a failure is at index \<open>i\<close>.\<close>

definition first_failure :: "BulkTransactionResult list \<Rightarrow> nat \<Rightarrow> bool" where
  "first_failure rs i \<longleftrightarrow> i < length rs \<and> \<not> success (rs ! i) \<and> (\<forall>j<i. success (rs ! j))"

text \<open>
  A loop state is consistent with its log: the results are the entries of the calls, in
  order; the calls are those of the iterations \<open>0, 1, ...\<close>, one each, with the
  configuration of that work item; each recorded outcome is what the method gives on some
  state of the ledger; the two counters count the successes and the failures.
\<close>

definition consistent ::
  "('w, 'a) client \<Rightarrow> (nat \<Rightarrow> 'a) \<Rightarrow> (nat \<Rightarrow> string) \<Rightarrow> ('w, 'a) LoopState \<Rightarrow> bool" where
  "consistent send argsOf targetOf st \<longleftrightarrow>
     results st = map (\<lambda>(k, a, out). entry (targetOf k) out) (calls (events st)) \<and>
     map (\<lambda>(k, a, out). (k, a)) (calls (events st)) =
       map (\<lambda>k. (k, argsOf k)) [0..<length (results st)] \<and>
     (\<forall>(k, a, out) \<in> set (calls (events st)). \<exists>w. out = fst (send a w)) \<and>
     totalSent st = length (filter success (results st)) \<and>
     totalFailed st = length (filter (\<lambda>r. \<not> success r) (results st))"

text \<open>What holds of the state in which a bulk loop ends.\<close>

definition finished ::
  "('w, 'a) client \<Rightarrow> ('w, 'x) BulkOptions_scheme \<Rightarrow> nat \<Rightarrow> (nat \<Rightarrow> 'a) \<Rightarrow> (nat \<Rightarrow> string)
     \<Rightarrow> ('w, 'a) LoopState \<Rightarrow> bool" where
  "finished send config n argsOf targetOf st \<longleftrightarrow>
     consistent send argsOf targetOf st \<and> length (results st) \<le> n \<and>
     (length (results st) < n \<longrightarrow>
        \<not> truthy_bool (continueOnError config) \<and> results st \<noteq> [] \<and> \<not> success (last (results st))) \<and>
     (\<not> truthy_bool (continueOnError config) \<longrightarrow> (\<forall>r \<in> set (butlast (results st)). success r))"

section \<open>Concrete runs\<close>

text \<open>
  A ledger for concrete runs: its state is the script of the outcomes still to come, and
  each call of the method takes the next one (a call after the end of the script throws).
\<close>

type_synonym script = "(thrown + TransactionResult) list"

definition scripted :: "(script, 'a) client" where
  "scripted args w = (case w of [] \<Rightarrow> (Inl NonError, []) | out # rest \<Rightarrow> (out, rest))"

definition sent :: "string \<Rightarrow> thrown + TransactionResult" where
  "sent sig = Inr \<lparr>signature = sig, success = True, error = None,
                   explorerUrl = Some (getExplorerUrl sig ''devnet'')\<rparr>"

definition rejected :: "string \<Rightarrow> thrown + TransactionResult" where
  "rejected m = Inr (failed (Error m))"

definition alice :: Keypair where
  "alice = Keypair (PublicKey ''Alice'') []"

definition toRecipients ::
  "int option \<Rightarrow> bool option \<Rightarrow> string list \<Rightarrow> 'w BulkMessageConfig" where
  "toRecipients delay continue names =
     \<lparr>message = ''hello'', senderKeypair = alice, connection = None, commitment = None,
      skipPreflight = None, delayBetweenTx = delay, continueOnError = continue,
      recipientAddresses = map PublicKey names\<rparr>"

definition memos ::
  "int option \<Rightarrow> bool option \<Rightarrow> string list option \<Rightarrow> 'w BulkMemoConfig" where
  "memos delay continue ms =
     \<lparr>message = ''fallback'', senderKeypair = alice, connection = None, commitment = None,
      skipPreflight = None, delayBetweenTx = delay, continueOnError = continue,
      messages = ms\<rparr>"

section \<open>Properties of a run\<close>

text \<open>
  The counters of a state or of a returned record are those of its results; the record is
  that of a run with nothing to do; the last recorded item failed.
\<close>

definition tallied :: "('w, 'a) Run \<Rightarrow> bool" where
  "tallied run \<longleftrightarrow>
     totalSent run = length (filter success (results run)) \<and>
     totalFailed run = length (filter (\<lambda>r. \<not> success r) (results run)) \<and>
     (overallSuccess run \<longleftrightarrow> totalFailed run = 0)"

definition nothing_to_do :: "('w, 'a) Run \<Rightarrow> bool" where
  "nothing_to_do run \<longleftrightarrow>
     totalSent run = 0 \<and> totalFailed run = 0 \<and> results run = [] \<and> overallSuccess run"

definition balanced :: "nat \<Rightarrow> 'x BulkTotals_scheme \<Rightarrow> bool" where
  "balanced n t \<longleftrightarrow>
     totalSent t + totalFailed t = length (results t) \<and> length (results t) \<le> n"

definition stopped_early :: "'x BulkTotals_scheme \<Rightarrow> bool" where
  "stopped_early t \<longleftrightarrow> results t \<noteq> [] \<and> \<not> success (last (results t))"

text \<open>The state in which a bulk loop starts, followed by its state after each iteration.\<close>

definition messagesStates ::
  "('w, 'w MessageConfig) client \<Rightarrow> 'w BulkMessageConfig \<Rightarrow> 'w
     \<Rightarrow> ('w, 'w MessageConfig) LoopState list" where
  "messagesStates send config w =
     initial w #
     iterations (bulkMessagesBody send config) (length (recipientAddresses config)) 0 (initial w)"

definition memoStates ::
  "('w, 'w MemoOnlyConfig) client \<Rightarrow> 'w BulkMemoConfig \<Rightarrow> 'w
     \<Rightarrow> ('w, 'w MemoOnlyConfig) LoopState list" where
  "memoStates send config w =
     initial w # iterations (bulkMemoBody send config) (length (memoMessages config)) 0 (initial w)"

text \<open>
  An entry records the failure of a call: when the method threw, or returned a result
  that reports a failure, the entry has \<open>success\<close> false, an empty signature and the text
  of the error. A run has recorded its failures when it has one entry for each call it
  made, and each entry records the failure of its call.
\<close>

definition records_failure :: "thrown + TransactionResult \<Rightarrow> BulkTransactionResult \<Rightarrow> bool" where
  "records_failure out r \<longleftrightarrow>
     (case out of
        Inl e \<Rightarrow> \<not> success r \<and> signature r = '''' \<and> error r = Some (errorMessage e)
      | Inr res \<Rightarrow> \<not> success res \<longrightarrow> \<not> success r \<and> signature r = '''' \<and> error r = error res)"

definition failures_recorded :: "('w, 'a) Run \<Rightarrow> bool" where
  "failures_recorded run \<longleftrightarrow>
     length (calls (trace run)) = length (results run) \<and>
     (\<forall>k < length (results run).
        records_failure (snd (snd (calls (trace run) ! k))) (results run ! k))"

text \<open>
  A run is paced by \<open>d\<close> when its log is the sequence of its calls with exactly one
  \<open>Sleep d\<close> between any two consecutive calls and nothing after the last call, and it
  has one entry for each call.
\<close>

definition paced :: "int \<Rightarrow> ('w, 'a) Run \<Rightarrow> bool" where
  "paced d run \<longleftrightarrow>
     trace run = separate (Sleep d) (filter is_Invoke (trace run)) \<and>
     length (filter is_Invoke (trace run)) = length (results run)"

text \<open>
  A sender of the class for concrete runs: the state of its ledger is the script of what
  \<open>sendAndConfirmTransaction\<close> does next (it throws once the script is used up), and the
  blockhash is always available.
\<close>

type_synonym ledger = "(thrown + string) list"

definition scriptedConnection :: "ledger Connection" where
  "scriptedConnection =
     \<lparr>getLatestBlockhash = (\<lambda>w. (Inr ''hash'', w)),
      sendAndConfirmTransaction =
        (\<lambda>transaction signers opts w.
           case w of [] \<Rightarrow> (Inl NonError, []) | out # rest \<Rightarrow> (out, rest))\<rparr>"

definition devnetSender :: "ledger SolanaMessageSender" where
  "devnetSender =
     SolanaMessageSender scriptedConnection
       \<lparr>rpcUrl = ''https://api.devnet.solana.com'', wsUrl = ''wss://api.devnet.solana.com'',
        network = ''devnet'', SolanaConfig.commitment = Confirmed,
        SolanaConfig.skipPreflight = False, walletPath = None, privateKey = None\<rparr>"

text \<open>
  What the SDK gives to a single operation: the try block of \<open>sendMessage\<close> and of
  \<open>sendMemoOnly\<close> up to the signature, which is returned by \<open>sendAndConfirmTransaction\<close>
  unless that call or \<open>getLatestBlockhash\<close> throws. \<open>messageInstructions\<close> are the
  instructions that \<open>sendMessage\<close> puts in its transaction.
\<close>

definition sdk_outcome ::
  "'w SolanaMessageSender \<Rightarrow> ('w, 'x) MemoOnlyConfig_scheme \<Rightarrow> Instruction list \<Rightarrow> 'w
     \<Rightarrow> (thrown + string) \<times> 'w" where
  "sdk_outcome this config instrs w =
     (let conn = (case connection config of Some c \<Rightarrow> c | None \<Rightarrow> this_connection this)
      in case getLatestBlockhash conn w of
           (Inl e, w1) \<Rightarrow> (Inl e, w1)
         | (Inr blockhash, w1) \<Rightarrow>
             sendAndConfirmTransaction conn
               \<lparr>instructions = instrs, recentBlockhash = Some blockhash,
                feePayer = Some (publicKey (senderKeypair config))\<rparr>
               [senderKeypair config]
               (ConfirmOptions
                  (case commitment config of Some c \<Rightarrow> c
                     | None \<Rightarrow> SolanaConfig.commitment (this_config this))
                  (case skipPreflight config of Some True \<Rightarrow> True
                     | _ \<Rightarrow> SolanaConfig.skipPreflight (this_config this)))
               w1)"

definition messageInstructions :: "'w MessageConfig \<Rightarrow> Instruction list" where
  "messageInstructions config =
     [TransactionInstruction [] memoProgramId (message config),
      SystemTransfer (publicKey (senderKeypair config)) (MessageConfig.recipientAddress config) 1000]"

text \<open>
  File systems and a key parser for concrete runs: no file at all, one file with a given
  content at every path, and a parser that accepts the listed addresses only.
\<close>

definition noFile :: FileSystem where
  "noFile = \<lparr>access = (\<lambda>p. Inl (Error ''ENOENT'')), readFile = (\<lambda>p. Inl (Error ''ENOENT''))\<rparr>"

definition fileWith :: "string \<Rightarrow> FileSystem" where
  "fileWith content = \<lparr>access = (\<lambda>p. Inr ()), readFile = (\<lambda>p. Inr content)\<rparr>"

definition onlyKeys :: "string list \<Rightarrow> keyParser" where
  "onlyKeys good address =
     (if address \<in> set good then Inr (PublicKey address) else Inl (Error ''Invalid public key input''))"

definition fromFile :: "bool option \<Rightarrow> string \<Rightarrow> 'w FileRecipientConfig" where
  "fromFile continue path =
     \<lparr>message = ''hello'', senderKeypair = alice, connection = None, commitment = None,
      skipPreflight = None, delayBetweenTx = None, continueOnError = continue,
      recipientsFile = path\<rparr>"

section \<open>Lemmas on the loops\<close>

declare for_loop.simps [simp del] iterations.simps [simp del] strip.simps [simp del]

lemma calls_append: "calls (xs @ ys) = calls xs @ calls ys"
  by (induction xs rule: calls.induct) simp_all

lemma delay_step_fields:
  "totalSent (delay_step delay n i st) = totalSent st"
  "totalFailed (delay_step delay n i st) = totalFailed st"
  "results (delay_step delay n i st) = results st"
  "world (delay_step delay n i st) = world st"
  "events (delay_step delay n i st) = events st @ pause delay n i"
  by (auto simp: delay_step_def pause_def split: option.splits)

lemma loop_body_fields:
  fixes send config n argsOf targetOf i st
  defines "out \<equiv> fst (send (argsOf i) (world st))"
  shows "fst (loop_body send config n argsOf targetOf i st) =
           (if ok out \<or> truthy_bool (continueOnError config) then Continue else Break)"
    and "totalSent (snd (loop_body send config n argsOf targetOf i st)) =
           totalSent st + (if ok out then 1 else 0)"
    and "totalFailed (snd (loop_body send config n argsOf targetOf i st)) =
           totalFailed st + (if ok out then 0 else 1)"
    and "results (snd (loop_body send config n argsOf targetOf i st)) =
           results st @ [entry (targetOf i) out]"
    and "world (snd (loop_body send config n argsOf targetOf i st)) =
           snd (send (argsOf i) (world st))"
    and "events (snd (loop_body send config n argsOf targetOf i st)) =
           events st @ Invoke i (argsOf i) out #
             (if (ok out \<or> truthy_bool (continueOnError config)) \<and> \<not> isl out
              then pause (delayBetweenTx config) n i else [])"
  unfolding out_def
  by (auto simp: loop_body_def try_block_def catch_block_def ok_def entry_def Let_def
                 delay_step_fields
           split: prod.splits sum.splits)

lemma for_loop_rule:
  assumes "I i st"
    and "\<And>i st st'. i < n \<Longrightarrow> I i st \<Longrightarrow> body i st = (Continue, st') \<Longrightarrow> I (Suc i) st'"
    and "\<And>i st st'. i < n \<Longrightarrow> I i st \<Longrightarrow> body i st = (Break, st') \<Longrightarrow> Q st'"
    and "\<And>i st. n \<le> i \<Longrightarrow> I i st \<Longrightarrow> Q st"
  shows "Q (for_loop body n i st)"
  using assms(1)
proof (induction "n - i" arbitrary: i st)
  case 0
  then have "n \<le> i" by simp
  with 0 assms(4) show ?case by (subst for_loop.simps) simp
next
  case (Suc k)
  from Suc.hyps(2) have lt: "i < n" by arith
  obtain c st' where b: "body i st = (c, st')" by (cases "body i st")
  show ?case
  proof (cases c)
    case Break
    with lt b Suc.prems assms(3) show ?thesis by (subst for_loop.simps) simp
  next
    case Continue
    with lt b Suc.prems assms(2) have "I (Suc i) st'" by blast
    moreover from Suc.hyps(2) have "k = n - Suc i" by simp
    ultimately have "Q (for_loop body n (Suc i) st')" by (rule Suc.hyps(1)[rotated])
    with lt b Continue show ?thesis by (subst for_loop.simps) simp
  qed
qed

lemma iterations_rule:
  assumes "I i st"
    and "\<And>i st c st'. i < n \<Longrightarrow> I i st \<Longrightarrow> body i st = (c, st') \<Longrightarrow> I (Suc i) st'"
  shows "\<forall>s \<in> set (iterations body n i st). \<exists>j. i < j \<and> j \<le> n \<and> I j s"
  using assms(1)
proof (induction "n - i" arbitrary: i st)
  case 0
  then have "\<not> i < n" by arith
  then show ?case by (subst iterations.simps) simp
next
  case (Suc k)
  from Suc.hyps(2) have lt: "i < n" by arith
  obtain c st' where b: "body i st = (c, st')" by (cases "body i st")
  with lt Suc.prems assms(2) have I': "I (Suc i) st'" by blast
  show ?case
  proof (cases c)
    case Break
    with lt b have "iterations body n i st = [st']"
      using iterations.simps[of body n i st] by simp
    moreover from lt I' have "i < Suc i \<and> Suc i \<le> n \<and> I (Suc i) st'" by simp
    ultimately show ?thesis by auto
  next
    case Continue
    from Suc.hyps(2) have "k = n - Suc i" by simp
    from Suc.hyps(1)[OF this I']
    have rest: "\<forall>s\<in>set (iterations body n (Suc i) st'). \<exists>j>Suc i. j \<le> n \<and> I j s" .
    from lt b Continue
    have unfold: "iterations body n i st = st' # iterations body n (Suc i) st'"
      using iterations.simps[of body n i st] by simp
    show ?thesis
    proof
      fix s
      assume "s \<in> set (iterations body n i st)"
      with unfold have "s = st' \<or> s \<in> set (iterations body n (Suc i) st')" by simp
      then show "\<exists>j>i. j \<le> n \<and> I j s"
      proof
        assume "s = st'"
        with lt I' have "i < Suc i \<and> Suc i \<le> n \<and> I (Suc i) s" by simp
        then show ?thesis by blast
      next
        assume "s \<in> set (iterations body n (Suc i) st')"
        with rest obtain j where "Suc i < j" "j \<le> n" "I j s" by blast
        then have "i < j \<and> j \<le> n \<and> I j s" by simp
        then show ?thesis by blast
      qed
    qed
  qed
qed

lemma for_loop_last: "for_loop body n i st = last (st # iterations body n i st)"
proof (induction "n - i" arbitrary: i st)
  case 0
  then have "\<not> i < n" by arith
  then show ?case by (subst for_loop.simps, subst iterations.simps) simp
next
  case (Suc k)
  from Suc.hyps(2) have lt: "i < n" by arith
  obtain c st' where b: "body i st = (c, st')" by (cases "body i st")
  show ?case
  proof (cases c)
    case Break
    with lt b show ?thesis by (subst for_loop.simps, subst iterations.simps) simp
  next
    case Continue
    from Suc.hyps(2) have "k = n - Suc i" by simp
    from Suc.hyps(1)[OF this, of st'] lt b Continue show ?thesis
      by (subst for_loop.simps, subst iterations.simps) simp
  qed
qed

lemma calls_pause: "calls (pause delay n i) = []"
  by (simp add: pause_def split: option.splits)

lemma success_entry: "success (entry target out) = ok out"
  by (simp add: entry_def ok_def split: sum.splits)

lemma consistent_initial: "consistent send argsOf targetOf (initial w)"
  by (simp add: consistent_def initial_def)

lemma consistent_step:
  assumes "consistent send argsOf targetOf st"
  shows "consistent send argsOf targetOf
           (snd (loop_body send config n argsOf targetOf (length (results st)) st))"
proof -
  have "\<exists>w. fst (send (argsOf (length (results st))) (world st)) =
             fst (send (argsOf (length (results st))) w)" by blast
  with assms show ?thesis
    unfolding consistent_def
    by (simp add: loop_body_fields calls_append calls_pause success_entry)
qed

lemma length_results_step:
  "length (results (snd (loop_body send config n argsOf targetOf i st))) =
     Suc (length (results st))"
  by (simp add: loop_body_fields)

lemma last_result_step:
  assumes "loop_body send config n argsOf targetOf i st = (c, st')"
  shows "results st' = results st @ [last (results st')]"
    and "c = Break \<Longrightarrow>
           \<not> truthy_bool (continueOnError config) \<and> \<not> success (last (results st'))"
    and "c = Continue \<Longrightarrow> \<not> truthy_bool (continueOnError config) \<Longrightarrow>
           success (last (results st'))"
proof -
  from loop_body_fields(1,4)[of send config n argsOf targetOf i st] assms
  have c: "c = (if ok (fst (send (argsOf i) (world st))) \<or> truthy_bool (continueOnError config)
                then Continue else Break)"
    and r: "results st' = results st @ [entry (targetOf i) (fst (send (argsOf i) (world st)))]"
    by simp_all
  from r show "results st' = results st @ [last (results st')]" by simp
  from c r show "c = Break \<Longrightarrow>
      \<not> truthy_bool (continueOnError config) \<and> \<not> success (last (results st'))"
    by (simp add: success_entry split: if_splits)
  from c r show "c = Continue \<Longrightarrow> \<not> truthy_bool (continueOnError config) \<Longrightarrow>
      success (last (results st'))"
    by (simp add: success_entry split: if_splits)
qed

lemma for_loop_finished:
  "finished send config n argsOf targetOf
     (for_loop (loop_body send config n argsOf targetOf) n 0 (initial w))"
proof (rule for_loop_rule[where I = "\<lambda>i st. i \<le> n \<and> length (results st) = i \<and>
          consistent send argsOf targetOf st \<and>
          (\<not> truthy_bool (continueOnError config) \<longrightarrow> (\<forall>r \<in> set (results st). success r))"])
  show "0 \<le> n \<and> length (results (initial w)) = 0 \<and> consistent send argsOf targetOf (initial w) \<and>
        (\<not> truthy_bool (continueOnError config) \<longrightarrow> (\<forall>r \<in> set (results (initial w)). success r))"
    by (simp add: consistent_initial) (simp add: initial_def)
next
  fix i st st'
  assume lt: "i < n"
    and inv: "i \<le> n \<and> length (results st) = i \<and> consistent send argsOf targetOf st \<and>
          (\<not> truthy_bool (continueOnError config) \<longrightarrow> (\<forall>r \<in> set (results st). success r))"
    and b: "loop_body send config n argsOf targetOf i st = (Continue, st')"
  from inv have len: "length (results st) = i" by simp
  from consistent_step[of send argsOf targetOf st config n] inv b len
  have "consistent send argsOf targetOf st'" by simp
  moreover from length_results_step[of send config n argsOf targetOf i st] b len
  have "length (results st') = Suc i" by simp
  moreover from last_result_step(1,3)[OF b] inv
  have "\<not> truthy_bool (continueOnError config) \<longrightarrow> (\<forall>r \<in> set (results st'). success r)"
    by (metis Un_iff empty_iff empty_set insert_iff list.simps(15) set_append)
  ultimately show "Suc i \<le> n \<and> length (results st') = Suc i \<and> consistent send argsOf targetOf st' \<and>
          (\<not> truthy_bool (continueOnError config) \<longrightarrow> (\<forall>r \<in> set (results st'). success r))"
    using lt by simp
next
  fix i st st'
  assume lt: "i < n"
    and inv: "i \<le> n \<and> length (results st) = i \<and> consistent send argsOf targetOf st \<and>
          (\<not> truthy_bool (continueOnError config) \<longrightarrow> (\<forall>r \<in> set (results st). success r))"
    and b: "loop_body send config n argsOf targetOf i st = (Break, st')"
  from inv have len: "length (results st) = i" by simp
  from consistent_step[of send argsOf targetOf st config n] inv b len
  have 1: "consistent send argsOf targetOf st'" by simp
  from length_results_step[of send config n argsOf targetOf i st] b len
  have 2: "length (results st') = Suc i" by simp
  from last_result_step(2)[OF b]
  have 3: "\<not> truthy_bool (continueOnError config)" "\<not> success (last (results st'))" by simp_all
  from last_result_step(1)[OF b] have "butlast (results st') = results st"
    by (metis butlast_snoc)
  with inv 3 have 4: "\<forall>r \<in> set (butlast (results st')). success r" by simp
  from 2 have 5: "results st' \<noteq> []" by auto
  from 1 2 3 4 5 lt show "finished send config n argsOf targetOf st'"
    by (simp add: finished_def)
next
  fix i st
  assume "n \<le> i"
    and inv: "i \<le> n \<and> length (results st) = i \<and> consistent send argsOf targetOf st \<and>
          (\<not> truthy_bool (continueOnError config) \<longrightarrow> (\<forall>r \<in> set (results st). success r))"
  then show "finished send config n argsOf targetOf st"
    by (auto simp: finished_def dest: in_set_butlastD)
qed

lemma summary_fields:
  "totalSent (summary st) = totalSent st"
  "totalFailed (summary st) = totalFailed st"
  "results (summary st) = results st"
  "overallSuccess (summary st) = (totalFailed st = 0)"
  "after (summary st) = world st"
  "trace (summary st) = events st"
  by (simp_all add: summary_def)

lemma messages_finished:
  "finished send config (length (recipientAddresses config)) (messageArgs config)
     (\<lambda>i. toBase58 (recipientAddresses config ! i))
     (for_loop (bulkMessagesBody send config) (length (recipientAddresses config)) 0 (initial w))"
  unfolding bulkMessagesBody_def by (rule for_loop_finished)

lemma memo_finished:
  "finished send config (length (memoMessages config)) (memoArgs config) (\<lambda>i. ''memo-only'')
     (for_loop (bulkMemoBody send config) (length (memoMessages config)) 0 (initial w))"
  unfolding bulkMemoBody_def by (rule for_loop_finished)

lemma finished_all_when_continuing:
  "finished send config n argsOf targetOf st \<Longrightarrow> truthy_bool (continueOnError config) \<Longrightarrow>
     length (results st) = n"
  unfolding finished_def by (metis le_neq_implies_less)

lemma consistent_balanced:
  assumes "consistent send argsOf targetOf st"
  shows "totalSent st + totalFailed st = length (results st)"
proof -
  from assms have "totalSent st = length (filter success (results st))"
    and "totalFailed st = length (filter (\<lambda>r. \<not> success r) (results st))"
    unfolding consistent_def by blast+
  with sum_length_filter_compl[of success "results st"] show ?thesis by simp
qed

lemma consistent_indices:
  assumes "consistent send argsOf targetOf st"
  shows "map fst (calls (events st)) = [0..<length (results st)]"
proof -
  from assms
  have "map fst (map (\<lambda>(k, a, out). (k, a)) (calls (events st))) =
        map fst (map (\<lambda>k. (k, argsOf k)) [0..<length (results st)])"
    by (simp add: consistent_def)
  then show ?thesis by (simp add: comp_def case_prod_unfold map_idI)
qed

lemma iterations_consistent:
  "\<forall>s \<in> set (iterations (loop_body send config n argsOf targetOf) n 0 (initial w)).
     consistent send argsOf targetOf s \<and> length (results s) \<le> n"
proof -
  have "\<forall>s \<in> set (iterations (loop_body send config n argsOf targetOf) n 0 (initial w)).
          \<exists>j. 0 < j \<and> j \<le> n \<and> length (results s) = j \<and> consistent send argsOf targetOf s"
  proof (rule iterations_rule)
    show "length (results (initial w)) = 0 \<and> consistent send argsOf targetOf (initial w)"
      by (simp add: consistent_initial) (simp add: initial_def)
  next
    fix i st c st'
    assume "length (results st) = i \<and> consistent send argsOf targetOf st"
      and "loop_body send config n argsOf targetOf i st = (c, st')"
    with consistent_step[of send argsOf targetOf st config n]
         length_results_step[of send config n argsOf targetOf i st]
    show "length (results st') = Suc i \<and> consistent send argsOf targetOf st'" by simp
  qed
  then show ?thesis by auto
qed

lemma failure_is_last:
  assumes "\<forall>r \<in> set (butlast rs). success r" and "first_failure rs i"
  shows "length rs = i + 1"
proof -
  from assms(2) have i: "i < length rs" "\<not> success (rs ! i)" by (simp_all add: first_failure_def)
  have "\<not> i < length (butlast rs)"
  proof
    assume lt: "i < length (butlast rs)"
    then have "butlast rs ! i \<in> set (butlast rs)" by (rule nth_mem)
    with assms(1) have "success (butlast rs ! i)" by blast
    with lt i show False by (simp add: nth_butlast)
  qed
  with i show ?thesis by simp
qed

lemma finished_stop:
  assumes "finished send config n argsOf targetOf st"
    and "\<not> truthy_bool (continueOnError config)"
    and "first_failure (results st) k"
  shows "length (results st) = k + 1 \<and> map fst (calls (events st)) = [0..<k + 1]"
proof -
  from assms(1,2) have "\<forall>r \<in> set (butlast (results st)). success r"
    and c: "consistent send argsOf targetOf st"
    by (simp_all add: finished_def)
  with assms(3) have "length (results st) = k + 1" by (simp add: failure_is_last)
  with consistent_indices[OF c] show ?thesis by simp
qed

text \<open>The equations that evaluate a concrete run.\<close>

lemmas run_simps =
  sendBulkMessages_def sendBulkMemoOnly_def bulkMessagesBody_def bulkMemoBody_def
  for_loop.simps loop_body_def try_block_def catch_block_def delay_step_def initial_def
  summary_def truthy_bool_def messageArgs_def memoArgs_def memoMessages_def Let_def
  errorMessage_def scripted_def sent_def rejected_def failed_def toRecipients_def memos_def
  getExplorerUrl_def

lemma states_balanced:
  "\<forall>s \<in> set (initial w # iterations (loop_body send config n argsOf targetOf) n 0 (initial w)).
     balanced n s"
proof -
  have "balanced n (initial w :: ('a, 'b) LoopState)"
    by (simp add: balanced_def) (simp add: initial_def)
  moreover from iterations_consistent[of send config n argsOf targetOf w]
  have "\<forall>s \<in> set (iterations (loop_body send config n argsOf targetOf) n 0 (initial w)).
          balanced n s"
    by (auto simp: balanced_def dest: consistent_balanced)
  ultimately show ?thesis by simp
qed

lemma finished_balanced:
  assumes "finished send config n argsOf targetOf st"
  shows "balanced n (summary st)"
    and "length (results (summary st)) < n \<Longrightarrow>
           \<not> truthy_bool (continueOnError config) \<and> stopped_early (summary st)"
  using assms
  by (auto simp: finished_def balanced_def stopped_early_def summary_fields
            dest: consistent_balanced)

lemma consistent_length_calls:
  assumes "consistent send argsOf targetOf st"
  shows "length (calls (events st)) = length (results st)"
  using consistent_indices[OF assms] by (metis length_map length_upt minus_nat.diff_0)

lemma consistent_nth:
  assumes "consistent send argsOf targetOf st" and "k < length (results st)"
  shows "\<exists>out. calls (events st) ! k = (k, argsOf k, out) \<and>
               results st ! k = entry (targetOf k) out \<and>
               (\<exists>w. out = fst (send (argsOf k) w))"
proof -
  let ?cs = "calls (events st)"
  from consistent_length_calls[OF assms(1)] assms(2) have k: "k < length ?cs" by simp
  obtain j a out where c: "?cs ! k = (j, a, out)" by (cases "?cs ! k")
  from assms(1) have "map (\<lambda>(k, a, out). (k, a)) ?cs ! k =
      map (\<lambda>k. (k, argsOf k)) [0..<length (results st)] ! k"
    by (simp add: consistent_def)
  with k c assms(2) have ja: "j = k" "a = argsOf k" by simp_all
  from assms(1) have "results st ! k = map (\<lambda>(k, a, out). entry (targetOf k) out) ?cs ! k"
    by (simp add: consistent_def)
  with k c ja have r: "results st ! k = entry (targetOf k) out" by simp
  from k have "?cs ! k \<in> set ?cs" by (rule nth_mem)
  with assms(1) c have "\<exists>w. out = fst (send a w)"
    unfolding consistent_def by fastforce
  with c ja r show ?thesis by simp
qed

lemma recipientAddress_entry: "recipientAddress (entry target out) = target"
  by (simp add: entry_def split: sum.splits)

lemma records_failure_entry: "records_failure out (entry target out)"
  by (simp add: records_failure_def entry_def split: sum.splits)

lemma finished_failures_recorded:
  assumes "finished send config n argsOf targetOf st"
  shows "failures_recorded (summary st)"
proof -
  from assms have c: "consistent send argsOf targetOf st" by (simp add: finished_def)
  have "records_failure (snd (snd (calls (events st) ! k))) (results st ! k)"
    if "k < length (results st)" for k
    using consistent_nth[OF c that] by (auto simp: records_failure_entry)
  with consistent_length_calls[OF c] show ?thesis
    by (simp add: failures_recorded_def summary_fields)
qed

lemma submit_result:
  "success (fst (submit this config instrs w)) \<and>
     error (fst (submit this config instrs w)) = None \<and>
     explorerUrl (fst (submit this config instrs w)) =
       Some (getExplorerUrl (signature (fst (submit this config instrs w)))
               (network (this_config this))) \<or>
   (\<exists>e. fst (submit this config instrs w) = failed e)"
  by (auto simp: submit_def Let_def split: prod.splits sum.splits)

lemma separate_snoc:
  "separate s (xs @ [x]) = (if xs = [] then [x] else separate s xs @ [s, x])"
  by (induction s xs rule: separate.induct) auto

lemma filter_separate:
  "\<forall>x \<in> set xs. P x \<Longrightarrow> \<not> P s \<Longrightarrow> filter P (separate s xs) = xs"
  by (induction s xs rule: separate.induct) auto

lemma returning_never_throws: "\<not> isl (fst (returning method args w))"
  by (simp add: returning_def split: prod.splits)

lemma for_loop_paced:
  assumes quiet: "\<And>args w. \<not> isl (fst (send args w))"
    and delay: "delayBetweenTx config = Some d" "d \<noteq> 0"
  shows "\<exists>cs. (\<forall>c \<in> set cs. is_Invoke c) \<and>
              events (for_loop (loop_body send config n argsOf targetOf) n 0 (initial w)) =
                separate (Sleep d) cs"
proof (rule for_loop_rule[where I = "\<lambda>i st. \<exists>cs. length cs = i \<and> (\<forall>c \<in> set cs. is_Invoke c) \<and>
          events st = separate (Sleep d) cs @ (if 0 < i \<and> i < n then [Sleep d] else [])"])
  show "\<exists>cs. length cs = 0 \<and> (\<forall>c \<in> set cs. is_Invoke c) \<and>
          events (initial w) = separate (Sleep d) cs @ (if 0 < (0::nat) \<and> 0 < n then [Sleep d] else [])"
    by (simp add: initial_def)
next
  fix i st st'
  assume lt: "i < n"
    and inv: "\<exists>cs. length cs = i \<and> (\<forall>c \<in> set cs. is_Invoke c) \<and>
          events st = separate (Sleep d) cs @ (if 0 < i \<and> i < n then [Sleep d] else [])"
    and b: "loop_body send config n argsOf targetOf i st = (Continue, st')"
  from inv obtain cs where cs: "length cs = i" "\<forall>c \<in> set cs. is_Invoke c"
    "events st = separate (Sleep d) cs @ (if 0 < i \<and> i < n then [Sleep d] else [])" by blast
  let ?c = "Invoke i (argsOf i) (fst (send (argsOf i) (world st)))"
  from loop_body_fields(1,6)[of send config n argsOf targetOf i st] b quiet delay
  have "events st' = events st @ ?c # (if Suc i < n then [Sleep d] else [])"
    by (simp add: pause_def split: if_splits)
  with cs lt have "events st' =
      separate (Sleep d) (cs @ [?c]) @ (if 0 < Suc i \<and> Suc i < n then [Sleep d] else [])"
    by (auto simp: separate_snoc)
  moreover from cs have "length (cs @ [?c]) = Suc i" "\<forall>c \<in> set (cs @ [?c]). is_Invoke c"
    by simp_all
  ultimately show "\<exists>cs. length cs = Suc i \<and> (\<forall>c \<in> set cs. is_Invoke c) \<and>
      events st' = separate (Sleep d) cs @ (if 0 < Suc i \<and> Suc i < n then [Sleep d] else [])"
    by blast
next
  fix i st st'
  assume lt: "i < n"
    and inv: "\<exists>cs. length cs = i \<and> (\<forall>c \<in> set cs. is_Invoke c) \<and>
          events st = separate (Sleep d) cs @ (if 0 < i \<and> i < n then [Sleep d] else [])"
    and b: "loop_body send config n argsOf targetOf i st = (Break, st')"
  from inv obtain cs where cs: "length cs = i" "\<forall>c \<in> set cs. is_Invoke c"
    "events st = separate (Sleep d) cs @ (if 0 < i \<and> i < n then [Sleep d] else [])" by blast
  let ?c = "Invoke i (argsOf i) (fst (send (argsOf i) (world st)))"
  from loop_body_fields(1,6)[of send config n argsOf targetOf i st] b
  have "events st' = events st @ [?c]"
    by (simp split: if_splits)
  with cs lt have "events st' = separate (Sleep d) (cs @ [?c])"
    by (auto simp: separate_snoc)
  moreover from cs have "\<forall>c \<in> set (cs @ [?c]). is_Invoke c" by simp
  ultimately show "\<exists>cs. (\<forall>c \<in> set cs. is_Invoke c) \<and> events st' = separate (Sleep d) cs"
    by blast
next
  fix i st
  assume "n \<le> i"
    and "\<exists>cs. length cs = i \<and> (\<forall>c \<in> set cs. is_Invoke c) \<and>
          events st = separate (Sleep d) cs @ (if 0 < i \<and> i < n then [Sleep d] else [])"
  then show "\<exists>cs. (\<forall>c \<in> set cs. is_Invoke c) \<and> events st = separate (Sleep d) cs"
    by auto
qed

lemma length_filter_is_Invoke: "length (filter is_Invoke es) = length (calls es)"
  by (induction es rule: calls.induct) simp_all

lemma finished_paced:
  assumes "\<And>args w. \<not> isl (fst (send args w))"
    and "delayBetweenTx config = Some d" "d \<noteq> 0"
  shows "paced d (summary (for_loop (loop_body send config n argsOf targetOf) n 0 (initial w)))"
proof -
  let ?st = "for_loop (loop_body send config n argsOf targetOf) n 0 (initial w)"
  from for_loop_paced[where send = send and n = n and argsOf = argsOf and targetOf = targetOf
                        and w = w, OF assms(1-3)]
  obtain cs where cs1: "\<forall>c \<in> set cs. is_Invoke c" and cs2: "events ?st = separate (Sleep d) cs"
    by (elim exE conjE)
  from cs1 have f: "filter is_Invoke (separate (Sleep d) cs) = cs"
    by (rule filter_separate) simp
  have 1: "events ?st = separate (Sleep d) (filter is_Invoke (events ?st))"
    by (simp only: cs2 f)
  from for_loop_finished[of send config n argsOf targetOf w]
  have "consistent send argsOf targetOf ?st" by (simp only: finished_def)
  from consistent_length_calls[OF this]
  have 2: "length (filter is_Invoke (events ?st)) = length (results ?st)"
    by (simp only: length_filter_is_Invoke)
  show ?thesis
    unfolding paced_def summary_fields using 1 2 by (rule conjI)
qed

lemmas sender_simps =
  returning_def sendMessage_def sendMemoOnly_def submit_def scriptedConnection_def
  devnetSender_def memoProgramId_def alice_def

lemma fst_returning: "fst (returning method args w) = Inr (fst (method args w))"
  by (simp add: returning_def split: prod.splits)

lemma sendMessage_result:
  "success (fst (sendMessage this args w)) \<and>
     explorerUrl (fst (sendMessage this args w)) =
       Some (getExplorerUrl (signature (fst (sendMessage this args w)))
               (network (this_config this))) \<or>
   (\<exists>e. fst (sendMessage this args w) = failed e)"
  using submit_result[of this args _ w] by (auto simp: sendMessage_def Let_def)

lemma submit_sdk_outcome:
  "submit this config instrs w =
     (case sdk_outcome this config instrs w of
        (Inl e, w') \<Rightarrow> (failed e, w')
      | (Inr sig, w') \<Rightarrow>
          (\<lparr>signature = sig, success = True, error = None,
            explorerUrl = Some (getExplorerUrl sig (network (this_config this)))\<rparr>, w'))"
  by (simp add: submit_def sdk_outcome_def Let_def split: prod.splits sum.splits)

lemma sendMessage_sdk_outcome:
  "fst (sendMessage this args w) =
     (case fst (sdk_outcome this args (messageInstructions args) w) of
        Inl e \<Rightarrow> failed e
      | Inr sig \<Rightarrow>
          \<lparr>signature = sig, success = True, error = None,
           explorerUrl = Some (getExplorerUrl sig (network (this_config this)))\<rparr>)"
  by (simp add: sendMessage_def messageInstructions_def Let_def submit_sdk_outcome
           split: prod.splits sum.splits)

lemma finished_entries:
  assumes "finished send config n argsOf targetOf st"
  shows "length (calls (events st)) = length (results st) \<and>
         (\<forall>k < length (results st).
            \<exists>out v. calls (events st) ! k = (k, argsOf k, out) \<and>
                    out = fst (send (argsOf k) v) \<and>
                    results st ! k = entry (targetOf k) out)"
proof -
  from assms have c: "consistent send argsOf targetOf st" by (simp add: finished_def)
  have "\<exists>out v. calls (events st) ! k = (k, argsOf k, out) \<and>
                out = fst (send (argsOf k) v) \<and> results st ! k = entry (targetOf k) out"
    if "k < length (results st)" for k
    using consistent_nth[OF c that] by blast
  with consistent_length_calls[OF c] show ?thesis by blast
qed

text \<open>
  With a \<open>delayBetweenTx\<close> other than 0, a run of \<open>sendBulkMessages\<close> with the class's
  \<open>sendMessage\<close>, or of \<open>sendBulkMemoOnly\<close> with the class's \<open>sendMemoOnly\<close>, awaits
  exactly one timer of that duration between any two consecutive processed items and none
  after the last processed item, also when the loop stops early: these two methods always
  return, and the try block awaits the timer after a returned success and after a returned
  failure alike. The elapsing of time is the awaited timer of the log.
\<close>

lemma paced_when_the_method_returns:
  "(delayBetweenTx config = Some d \<and> d \<noteq> 0 \<longrightarrow>
      paced d (sendBulkMessages (returning (sendMessage this)) config w)) \<and>
   (delayBetweenTx mconfig = Some md \<and> md \<noteq> 0 \<longrightarrow>
      paced md (sendBulkMemoOnly (returning (sendMemoOnly mthis)) mconfig mw))"
proof -
  have "paced d (sendBulkMessages (returning (sendMessage this)) config w)"
    if "delayBetweenTx config = Some d" "d \<noteq> 0"
    unfolding sendBulkMessages_def bulkMessagesBody_def
    by (rule finished_paced[where send = "returning (sendMessage this)",
                            OF returning_never_throws that])
  moreover have "paced md (sendBulkMemoOnly (returning (sendMemoOnly mthis)) mconfig mw)"
    if "delayBetweenTx mconfig = Some md" "md \<noteq> 0"
    unfolding sendBulkMemoOnly_def bulkMemoBody_def
    by (rule finished_paced[where send = "returning (sendMemoOnly mthis)",
                            OF returning_never_throws that])
  ultimately show ?thesis by blast
qed
lemma paced_when_the_method_returns_example:
  "delayBetweenTx (toRecipients (Some 5) None [''A'', ''B'', ''C''] :: ledger BulkMessageConfig) = Some 5 \<and>
   paced 5 (sendBulkMessages (returning (sendMessage devnetSender))
              (toRecipients (Some 5) None [''A'', ''B'', ''C''])
              [Inr ''s1'', Inl (Error ''timeout''), Inr ''s3'']) \<and>
   map is_Invoke
     (trace (sendBulkMessages (returning (sendMessage devnetSender))
               (toRecipients (Some 5) None [''A'', ''B'', ''C''])
               [Inr ''s1'', Inl (Error ''timeout''), Inr ''s3''])) = [True, False, True] \<and>
   delayBetweenTx (memos (Some 7) (Some True) (Some [''m1'', ''m2'', ''m3'']) :: ledger BulkMemoConfig) = Some 7 \<and>
   paced 7 (sendBulkMemoOnly (returning (sendMemoOnly devnetSender))
              (memos (Some 7) (Some True) (Some [''m1'', ''m2'', ''m3'']))
              [Inl NonError, Inr ''s2'', Inr ''s3'']) \<and>
   map is_Invoke
     (trace (sendBulkMemoOnly (returning (sendMemoOnly devnetSender))
               (memos (Some 7) (Some True) (Some [''m1'', ''m2'', ''m3'']))
               [Inl NonError, Inr ''s2'', Inr ''s3''])) = [True, False, True, False, True]"
proof -
  let ?c = "toRecipients (Some 5) None [''A'', ''B'', ''C''] :: ledger BulkMessageConfig"
  let ?w = "[Inr ''s1'', Inl (Error ''timeout''), Inr ''s3''] :: ledger"
  let ?m = "memos (Some 7) (Some True) (Some [''m1'', ''m2'', ''m3'']) :: ledger BulkMemoConfig"
  let ?v = "[Inl NonError, Inr ''s2'', Inr ''s3''] :: ledger"
  have a: "delayBetweenTx ?c = Some 5" by (simp add: toRecipients_def)
  have b: "delayBetweenTx ?m = Some 7" by (simp add: memos_def)
  have c: "map is_Invoke (trace (sendBulkMessages (returning (sendMessage devnetSender)) ?c ?w)) =
      [True, False, True]"
    by (simp add: run_simps sender_simps)
  have d: "map is_Invoke (trace (sendBulkMemoOnly (returning (sendMemoOnly devnetSender)) ?m ?v)) =
      [True, False, True, False, True]"
    by (simp add: run_simps sender_simps)
  from paced_when_the_method_returns[of ?c 5 devnetSender ?w ?m 7 devnetSender ?v] a b
  have "paced 5 (sendBulkMessages (returning (sendMessage devnetSender)) ?c ?w)"
    and "paced 7 (sendBulkMemoOnly (returning (sendMemoOnly devnetSender)) ?m ?v)"
    by simp_all
  with a b c d show ?thesis by simp
qed

text \<open>
  C1. When \<open>continueOnError\<close> is false or absent and the first failing item of a run of
  \<open>sendBulkMessages\<close> or of \<open>sendBulkMemoOnly\<close> has index \<open>i\<close>, the returned results have
  length \<open>i + 1\<close>, and the calls of the method that the run made are those for the indices
  \<open>0, ..., i\<close>, in this order: none is made for an index greater than \<open>i\<close>.
\<close>

theorem stops_at_first_failure:
  "(\<not> truthy_bool (continueOnError config) \<and>
      first_failure (results (sendBulkMessages send config w)) i \<longrightarrow>
      length (results (sendBulkMessages send config w)) = i + 1 \<and>
      map fst (calls (trace (sendBulkMessages send config w))) = [0..<i + 1]) \<and>
   (\<not> truthy_bool (continueOnError mconfig) \<and>
      first_failure (results (sendBulkMemoOnly msend mconfig mw)) j \<longrightarrow>
      length (results (sendBulkMemoOnly msend mconfig mw)) = j + 1 \<and>
      map fst (calls (trace (sendBulkMemoOnly msend mconfig mw))) = [0..<j + 1])"
  using finished_stop[OF messages_finished[of send config w]]
        finished_stop[OF memo_finished[of msend mconfig mw]]
  by (simp add: sendBulkMessages_def sendBulkMemoOnly_def summary_fields)

theorem stops_at_first_failure_witness:
  "\<not> truthy_bool
       (continueOnError (toRecipients (Some 5) None [''A'', ''B'', ''C''] :: script BulkMessageConfig)) \<and>
   first_failure
     (results (sendBulkMessages scripted (toRecipients (Some 5) None [''A'', ''B'', ''C''])
                 [sent ''s1'', rejected ''no funds'', sent ''s3''])) 1 \<and>
   length
     (results (sendBulkMessages scripted (toRecipients (Some 5) None [''A'', ''B'', ''C''])
                 [sent ''s1'', rejected ''no funds'', sent ''s3''])) = 2 \<and>
   map fst
     (calls (trace (sendBulkMessages scripted (toRecipients (Some 5) None [''A'', ''B'', ''C''])
                      [sent ''s1'', rejected ''no funds'', sent ''s3'']))) = [0, 1] \<and>
   \<not> truthy_bool
       (continueOnError (memos None (Some False) (Some [''m1'', ''m2'']) :: script BulkMemoConfig)) \<and>
   first_failure
     (results (sendBulkMemoOnly scripted (memos None (Some False) (Some [''m1'', ''m2'']))
                 [Inl (Error ''timeout''), sent ''s2''])) 0 \<and>
   length
     (results (sendBulkMemoOnly scripted (memos None (Some False) (Some [''m1'', ''m2'']))
                 [Inl (Error ''timeout''), sent ''s2''])) = 1 \<and>
   map fst
     (calls (trace (sendBulkMemoOnly scripted (memos None (Some False) (Some [''m1'', ''m2'']))
                      [Inl (Error ''timeout''), sent ''s2'']))) = [0]"
proof -
  have a: "\<not> truthy_bool
       (continueOnError (toRecipients (Some 5) None [''A'', ''B'', ''C''] :: script BulkMessageConfig))"
    by (simp add: toRecipients_def truthy_bool_def)
  have b: "first_failure
     (results (sendBulkMessages scripted (toRecipients (Some 5) None [''A'', ''B'', ''C''])
                 [sent ''s1'', rejected ''no funds'', sent ''s3''])) 1"
    by (simp add: run_simps first_failure_def)
  have c: "\<not> truthy_bool
       (continueOnError (memos None (Some False) (Some [''m1'', ''m2'']) :: script BulkMemoConfig))"
    by (simp add: memos_def truthy_bool_def)
  have d: "first_failure
     (results (sendBulkMemoOnly scripted (memos None (Some False) (Some [''m1'', ''m2'']))
                 [Inl (Error ''timeout''), sent ''s2''])) 0"
    by (simp add: run_simps first_failure_def)
  from a b c d
    stops_at_first_failure
      [of "toRecipients (Some 5) None [''A'', ''B'', ''C'']" scripted
          "[sent ''s1'', rejected ''no funds'', sent ''s3'']" 1
          "memos None (Some False) (Some [''m1'', ''m2''])" scripted
          "[Inl (Error ''timeout''), sent ''s2'']" 0]
  show ?thesis by simp
qed

text \<open>
  C2. In the record that \<open>sendBulkMessages\<close> or \<open>sendBulkMemoOnly\<close> returns,
  \<open>totalSent\<close> is the number of entries of \<open>results\<close> with \<open>success\<close> true,
  \<open>totalFailed\<close> the number of those with \<open>success\<close> false, and \<open>overallSuccess\<close> holds
  exactly when \<open>totalFailed\<close> is 0. For an empty list of recipients, or of messages, the
  record has both counters 0, no results and \<open>overallSuccess\<close> true.
\<close>

theorem totals_count_the_results:
  "tallied (sendBulkMessages send config w) \<and>
   tallied (sendBulkMemoOnly msend mconfig mw) \<and>
   (recipientAddresses config = [] \<longrightarrow> nothing_to_do (sendBulkMessages send config w)) \<and>
   (messages mconfig = Some [] \<longrightarrow> nothing_to_do (sendBulkMemoOnly msend mconfig mw))"
proof -
  from messages_finished[of send config w]
  have 1: "tallied (sendBulkMessages send config w)"
    by (simp add: finished_def consistent_def tallied_def sendBulkMessages_def summary_fields)
  from memo_finished[of msend mconfig mw]
  have 2: "tallied (sendBulkMemoOnly msend mconfig mw)"
    by (simp add: finished_def consistent_def tallied_def sendBulkMemoOnly_def summary_fields)
  have 3: "nothing_to_do (sendBulkMessages send config w)" if "recipientAddresses config = []"
    using that
    by (simp add: nothing_to_do_def sendBulkMessages_def for_loop.simps summary_fields)
       (simp add: initial_def)
  have 4: "nothing_to_do (sendBulkMemoOnly msend mconfig mw)" if "messages mconfig = Some []"
    using that
    by (simp add: nothing_to_do_def sendBulkMemoOnly_def memoMessages_def for_loop.simps
                  summary_fields)
       (simp add: initial_def)
  from 1 2 3 4 show ?thesis by blast
qed

theorem totals_count_the_results_witness:
  "recipientAddresses (toRecipients (Some 5) None [] :: script BulkMessageConfig) = [] \<and>
   nothing_to_do (sendBulkMessages scripted (toRecipients (Some 5) None []) [sent ''s1'']) \<and>
   messages (memos None None (Some []) :: script BulkMemoConfig) = Some [] \<and>
   nothing_to_do (sendBulkMemoOnly scripted (memos None None (Some [])) [sent ''s1'']) \<and>
   tallied (sendBulkMessages scripted (toRecipients None (Some True) [''A'', ''B'', ''C''])
              [sent ''s1'', rejected ''no funds'', sent ''s3'']) \<and>
   totalSent (sendBulkMessages scripted (toRecipients None (Some True) [''A'', ''B'', ''C''])
                [sent ''s1'', rejected ''no funds'', sent ''s3'']) = 2 \<and>
   totalFailed (sendBulkMessages scripted (toRecipients None (Some True) [''A'', ''B'', ''C''])
                  [sent ''s1'', rejected ''no funds'', sent ''s3'']) = 1"
proof -
  have a: "recipientAddresses (toRecipients (Some 5) None [] :: script BulkMessageConfig) = []"
    by (simp add: toRecipients_def)
  have b: "messages (memos None None (Some []) :: script BulkMemoConfig) = Some []"
    by (simp add: memos_def)
  have c: "totalSent (sendBulkMessages scripted (toRecipients None (Some True) [''A'', ''B'', ''C''])
                [sent ''s1'', rejected ''no funds'', sent ''s3'']) = 2"
    by (simp add: run_simps)
  have d: "totalFailed (sendBulkMessages scripted (toRecipients None (Some True) [''A'', ''B'', ''C''])
                [sent ''s1'', rejected ''no funds'', sent ''s3'']) = 1"
    by (simp add: run_simps)
  from a b c d
    totals_count_the_results
      [of scripted "toRecipients (Some 5) None []" "[sent ''s1'']"
          scripted "memos None None (Some [])" "[sent ''s1'']"]
    totals_count_the_results
      [of scripted "toRecipients None (Some True) [''A'', ''B'', ''C'']"
          "[sent ''s1'', rejected ''no funds'', sent ''s3'']"
          scripted "memos None None (Some [])" "[sent ''s1'']"]
  show ?thesis by simp
qed

text \<open>
  C3. In \<open>sendBulkMessages\<close> and in \<open>sendBulkMemoOnly\<close>, at the start of the loop and
  after each of its iterations \<open>totalSent + totalFailed\<close> is the length of \<open>results\<close>,
  which is at most the number of work items; the function returns the summary of the last
  of these states, so the same holds of the returned record. That record has fewer results
  than there are work items only when \<open>continueOnError\<close> is false or absent and the loop
  stopped early, on an item that failed.
\<close>

theorem counters_add_up_to_the_results:
  "(\<forall>s \<in> set (messagesStates send config w). balanced (length (recipientAddresses config)) s) \<and>
   sendBulkMessages send config w = summary (last (messagesStates send config w)) \<and>
   balanced (length (recipientAddresses config)) (sendBulkMessages send config w) \<and>
   (length (results (sendBulkMessages send config w)) < length (recipientAddresses config) \<longrightarrow>
      \<not> truthy_bool (continueOnError config) \<and> stopped_early (sendBulkMessages send config w)) \<and>
   (\<forall>s \<in> set (memoStates msend mconfig mw). balanced (length (memoMessages mconfig)) s) \<and>
   sendBulkMemoOnly msend mconfig mw = summary (last (memoStates msend mconfig mw)) \<and>
   balanced (length (memoMessages mconfig)) (sendBulkMemoOnly msend mconfig mw) \<and>
   (length (results (sendBulkMemoOnly msend mconfig mw)) < length (memoMessages mconfig) \<longrightarrow>
      \<not> truthy_bool (continueOnError mconfig) \<and> stopped_early (sendBulkMemoOnly msend mconfig mw))"
proof -
  have 1: "\<forall>s \<in> set (messagesStates send config w). balanced (length (recipientAddresses config)) s"
    unfolding messagesStates_def bulkMessagesBody_def by (rule states_balanced)
  have 2: "sendBulkMessages send config w = summary (last (messagesStates send config w))"
    unfolding messagesStates_def sendBulkMessages_def by (simp only: for_loop_last)
  have 3: "\<forall>s \<in> set (memoStates msend mconfig mw). balanced (length (memoMessages mconfig)) s"
    unfolding memoStates_def bulkMemoBody_def by (rule states_balanced)
  have 4: "sendBulkMemoOnly msend mconfig mw = summary (last (memoStates msend mconfig mw))"
    unfolding memoStates_def sendBulkMemoOnly_def by (simp only: for_loop_last)
  from finished_balanced[OF messages_finished[of send config w]]
  have 5: "balanced (length (recipientAddresses config)) (sendBulkMessages send config w)"
    and 6: "length (results (sendBulkMessages send config w)) < length (recipientAddresses config) \<longrightarrow>
      \<not> truthy_bool (continueOnError config) \<and> stopped_early (sendBulkMessages send config w)"
    by (simp_all add: sendBulkMessages_def)
  from finished_balanced[OF memo_finished[of msend mconfig mw]]
  have 7: "balanced (length (memoMessages mconfig)) (sendBulkMemoOnly msend mconfig mw)"
    and 8: "length (results (sendBulkMemoOnly msend mconfig mw)) < length (memoMessages mconfig) \<longrightarrow>
      \<not> truthy_bool (continueOnError mconfig) \<and> stopped_early (sendBulkMemoOnly msend mconfig mw)"
    by (simp_all add: sendBulkMemoOnly_def)
  from 1 2 3 4 5 6 7 8 show ?thesis by blast
qed
theorem counters_add_up_to_the_results_witness:
  "length (messagesStates scripted (toRecipients (Some 5) None [''A'', ''B'', ''C''])
             [sent ''s1'', rejected ''no funds'', sent ''s3'']) = 3 \<and>
   balanced 3 (messagesStates scripted (toRecipients (Some 5) None [''A'', ''B'', ''C''])
                 [sent ''s1'', rejected ''no funds'', sent ''s3''] ! 1) \<and>
   length (results (sendBulkMessages scripted (toRecipients (Some 5) None [''A'', ''B'', ''C''])
                      [sent ''s1'', rejected ''no funds'', sent ''s3''])) = 2 \<and>
   \<not> truthy_bool
       (continueOnError (toRecipients (Some 5) None [''A'', ''B'', ''C''] :: script BulkMessageConfig)) \<and>
   stopped_early (sendBulkMessages scripted (toRecipients (Some 5) None [''A'', ''B'', ''C''])
                    [sent ''s1'', rejected ''no funds'', sent ''s3'']) \<and>
   length (memoStates scripted (memos None None (Some [''m1'', ''m2'']))
             [Inl NonError, sent ''s2'']) = 2 \<and>
   balanced 2 (memoStates scripted (memos None None (Some [''m1'', ''m2'']))
                 [Inl NonError, sent ''s2''] ! 1) \<and>
   length (results (sendBulkMemoOnly scripted (memos None None (Some [''m1'', ''m2'']))
                      [Inl NonError, sent ''s2''])) = 1 \<and>
   stopped_early (sendBulkMemoOnly scripted (memos None None (Some [''m1'', ''m2'']))
                    [Inl NonError, sent ''s2''])"
proof -
  let ?c = "toRecipients (Some 5) None [''A'', ''B'', ''C''] :: script BulkMessageConfig"
  let ?w = "[sent ''s1'', rejected ''no funds'', sent ''s3'']"
  let ?m = "memos None None (Some [''m1'', ''m2'']) :: script BulkMemoConfig"
  let ?v = "[Inl NonError, sent ''s2'']"
  have n: "length (recipientAddresses ?c) = 3" "length (memoMessages ?m) = 2"
    by (simp_all add: toRecipients_def memos_def memoMessages_def)
  have a: "length (messagesStates scripted ?c ?w) = 3"
    by (simp add: messagesStates_def iterations.simps run_simps)
  have b: "length (results (sendBulkMessages scripted ?c ?w)) = 2"
    by (simp add: run_simps)
  have c: "length (memoStates scripted ?m ?v) = 2"
    by (simp add: memoStates_def iterations.simps run_simps)
  have d: "length (results (sendBulkMemoOnly scripted ?m ?v)) = 1"
    by (simp add: run_simps)
  from a have e: "messagesStates scripted ?c ?w ! 1 \<in> set (messagesStates scripted ?c ?w)"
    by simp
  from c have f: "memoStates scripted ?m ?v ! 1 \<in> set (memoStates scripted ?m ?v)"
    by simp
  note inst = counters_add_up_to_the_results[of scripted ?c ?w scripted ?m ?v]
  from inst e n have g: "balanced 3 (messagesStates scripted ?c ?w ! 1)" by metis
  from inst f n have h: "balanced 2 (memoStates scripted ?m ?v ! 1)" by metis
  from inst
  have "length (results (sendBulkMessages scripted ?c ?w)) < length (recipientAddresses ?c) \<longrightarrow>
        \<not> truthy_bool (continueOnError ?c) \<and> stopped_early (sendBulkMessages scripted ?c ?w)"
    by blast
  with b n
  have i: "\<not> truthy_bool (continueOnError ?c) \<and> stopped_early (sendBulkMessages scripted ?c ?w)"
    by simp
  from inst
  have "length (results (sendBulkMemoOnly scripted ?m ?v)) < length (memoMessages ?m) \<longrightarrow>
        \<not> truthy_bool (continueOnError ?m) \<and> stopped_early (sendBulkMemoOnly scripted ?m ?v)"
    by blast
  with d n have j: "stopped_early (sendBulkMemoOnly scripted ?m ?v)" by simp
  from a b c d g h i j show ?thesis by simp
qed

text \<open>
  C4. When \<open>continueOnError\<close> is true, \<open>sendBulkMessages\<close> returns one entry for each
  recipient and \<open>sendBulkMemoOnly\<close> one entry for each message, whatever the method does
  on the single items (return a success, return a failure, or throw).
\<close>

theorem continue_on_error_one_entry_per_item:
  "(truthy_bool (continueOnError config) \<longrightarrow>
      length (results (sendBulkMessages send config w)) = length (recipientAddresses config)) \<and>
   (truthy_bool (continueOnError mconfig) \<longrightarrow>
      length (results (sendBulkMemoOnly msend mconfig mw)) = length (memoMessages mconfig))"
  using finished_all_when_continuing[OF messages_finished[of send config w]]
        finished_all_when_continuing[OF memo_finished[of msend mconfig mw]]
  by (simp add: sendBulkMessages_def sendBulkMemoOnly_def summary_fields)

theorem continue_on_error_one_entry_per_item_witness:
  "truthy_bool
     (continueOnError (toRecipients None (Some True) [''A'', ''B'', ''C''] :: script BulkMessageConfig)) \<and>
   length (results (sendBulkMessages scripted (toRecipients None (Some True) [''A'', ''B'', ''C''])
                      [sent ''s1'', rejected ''no funds'', Inl (Error ''timeout'')])) = 3 \<and>
   truthy_bool
     (continueOnError (memos None (Some True) (Some [''m1'', ''m2'']) :: script BulkMemoConfig)) \<and>
   length (results (sendBulkMemoOnly scripted (memos None (Some True) (Some [''m1'', ''m2'']))
                      [rejected ''no funds'', sent ''s2''])) = 2"
  using continue_on_error_one_entry_per_item
          [of "toRecipients None (Some True) [''A'', ''B'', ''C'']" scripted
              "[sent ''s1'', rejected ''no funds'', Inl (Error ''timeout'')]"
              "memos None (Some True) (Some [''m1'', ''m2''])" scripted
              "[rejected ''no funds'', sent ''s2'']"]
  by (simp add: toRecipients_def memos_def truthy_bool_def memoMessages_def)

text \<open>
  C5. The results of \<open>sendBulkMessages\<close> are in the order of the input: there are at most
  as many as recipients, the entry at index \<open>k\<close> carries the base58 text of the recipient
  at index \<open>k\<close>, and the calls of the method, in the order in which the run made them, are
  those of the iterations \<open>0, 1, ...\<close>, each for the recipient at its index.
\<close>

theorem results_in_input_order:
  "length (results (sendBulkMessages send config w)) \<le> length (recipientAddresses config) \<and>
   (\<forall>k < length (results (sendBulkMessages send config w)).
      recipientAddress (results (sendBulkMessages send config w) ! k) =
        toBase58 (recipientAddresses config ! k)) \<and>
   map (\<lambda>(k, args, out). (k, MessageConfig.recipientAddress args))
       (calls (trace (sendBulkMessages send config w))) =
     map (\<lambda>k. (k, recipientAddresses config ! k))
       [0..<length (results (sendBulkMessages send config w))]"
proof -
  let ?st = "for_loop (bulkMessagesBody send config) (length (recipientAddresses config)) 0
               (initial w)"
  from messages_finished[of send config w]
  have c: "consistent send (messageArgs config) (\<lambda>i. toBase58 (recipientAddresses config ! i)) ?st"
    and le: "length (results ?st) \<le> length (recipientAddresses config)"
    by (simp_all add: finished_def)
  have nth: "recipientAddress (results ?st ! k) = toBase58 (recipientAddresses config ! k)"
    if "k < length (results ?st)" for k
    using consistent_nth[OF c that] by (auto simp: recipientAddress_entry)
  from c have "map (\<lambda>(k, a, out). (k, a)) (calls (events ?st)) =
      map (\<lambda>k. (k, messageArgs config k)) [0..<length (results ?st)]"
    by (simp add: consistent_def)
  then have "map (\<lambda>(k, a). (k, MessageConfig.recipientAddress a))
               (map (\<lambda>(k, a, out). (k, a)) (calls (events ?st))) =
             map (\<lambda>(k, a). (k, MessageConfig.recipientAddress a))
               (map (\<lambda>k. (k, messageArgs config k)) [0..<length (results ?st)])"
    by simp
  then have "map (\<lambda>(k, args, out). (k, MessageConfig.recipientAddress args)) (calls (events ?st)) =
      map (\<lambda>k. (k, recipientAddresses config ! k)) [0..<length (results ?st)]"
    by (simp add: comp_def case_prod_unfold messageArgs_def)
  with le nth show ?thesis
    by (simp add: sendBulkMessages_def summary_fields)
qed

theorem results_in_input_order_witness:
  "map recipientAddress
     (results (sendBulkMessages scripted (toRecipients None (Some True) [''A'', ''B'', ''C''])
                 [rejected ''no funds'', Inl NonError, sent ''s3''])) = [''A'', ''B'', ''C''] \<and>
   map (\<lambda>(k, args, out). (k, MessageConfig.recipientAddress args))
     (calls (trace (sendBulkMessages scripted (toRecipients None (Some True) [''A'', ''B'', ''C''])
                      [rejected ''no funds'', Inl NonError, sent ''s3'']))) =
     [(0, PublicKey ''A''), (1, PublicKey ''B''), (2, PublicKey ''C'')]"
proof -
  let ?c = "toRecipients None (Some True) [''A'', ''B'', ''C''] :: script BulkMessageConfig"
  let ?w = "[rejected ''no funds'', Inl NonError, sent ''s3'']"
  have n: "length (results (sendBulkMessages scripted ?c ?w)) = 3"
    by (simp add: run_simps)
  have r: "recipientAddresses ?c = [PublicKey ''A'', PublicKey ''B'', PublicKey ''C'']"
    by (simp add: toRecipients_def)
  note inst = results_in_input_order[of scripted ?c ?w]
  from inst n r
  have "\<forall>k<3. recipientAddress (results (sendBulkMessages scripted ?c ?w) ! k) =
          toBase58 ([PublicKey ''A'', PublicKey ''B'', PublicKey ''C''] ! k)"
    by simp
  then have "\<forall>k<3. map recipientAddress (results (sendBulkMessages scripted ?c ?w)) ! k =
          [''A'', ''B'', ''C''] ! k"
    using n by (simp add: less_Suc_eq numeral_3_eq_3)
  with n have a: "map recipientAddress (results (sendBulkMessages scripted ?c ?w)) =
      [''A'', ''B'', ''C'']"
    by (intro nth_equalityI) simp_all
  from inst n r
  have b: "map (\<lambda>(k, args, out). (k, MessageConfig.recipientAddress args))
     (calls (trace (sendBulkMessages scripted ?c ?w))) =
     [(0, PublicKey ''A''), (1, PublicKey ''B''), (2, PublicKey ''C'')]"
    by (simp add: upt_rec numeral_3_eq_3)
  from a b show ?thesis by simp
qed

text \<open>
  C6. The two bulk functions have no raising branch: the one statement of an iteration
  that can throw is the call of the method, inside the try block, and the catch block
  turns what it threw into an entry. For every configuration and every method,
  \<open>sendBulkMessages\<close> and \<open>sendBulkMemoOnly\<close> return a record with one entry for each call
  they made, and the entry of a call that threw, or that returned a result reporting a
  failure, has \<open>success\<close> false and the text of the error. The two methods of the class,
  \<open>sendMessage\<close> and \<open>sendMemoOnly\<close>, return in the same way: their result reports a
  success, or it is the failure built from what the SDK threw.
\<close>

theorem failures_are_recorded_not_raised:
  "failures_recorded (sendBulkMessages send config w) \<and>
   failures_recorded (sendBulkMemoOnly msend mconfig mw) \<and>
   (success (fst (sendMessage this args v)) \<or> (\<exists>e. fst (sendMessage this args v) = failed e)) \<and>
   (success (fst (sendMemoOnly this margs v)) \<or>
      (\<exists>e. fst (sendMemoOnly this margs v) = failed e))"
  using finished_failures_recorded[OF messages_finished[of send config w]]
        finished_failures_recorded[OF memo_finished[of msend mconfig mw]]
        submit_result[of this args _ v] submit_result[of this margs _ v]
  by (auto simp: sendBulkMessages_def sendBulkMemoOnly_def sendMessage_def sendMemoOnly_def
                 Let_def)

theorem failures_are_recorded_not_raised_witness:
  "calls (trace (sendBulkMessages scripted (toRecipients None (Some True) [''A'', ''B'', ''C''])
                   [sent ''s1'', Inl (Error ''timeout''), rejected ''no funds''])) ! 1 =
     (1, messageArgs (toRecipients None (Some True) [''A'', ''B'', ''C'']) 1, Inl (Error ''timeout'')) \<and>
   \<not> success (results (sendBulkMessages scripted (toRecipients None (Some True) [''A'', ''B'', ''C''])
                          [sent ''s1'', Inl (Error ''timeout''), rejected ''no funds'']) ! 1) \<and>
   error (results (sendBulkMessages scripted (toRecipients None (Some True) [''A'', ''B'', ''C''])
                     [sent ''s1'', Inl (Error ''timeout''), rejected ''no funds'']) ! 1) =
     Some ''timeout'' \<and>
   error (results (sendBulkMessages scripted (toRecipients None (Some True) [''A'', ''B'', ''C''])
                     [sent ''s1'', Inl (Error ''timeout''), rejected ''no funds'']) ! 2) =
     Some ''no funds''"
proof -
  let ?c = "toRecipients None (Some True) [''A'', ''B'', ''C''] :: script BulkMessageConfig"
  let ?w = "[sent ''s1'', Inl (Error ''timeout''), rejected ''no funds'']"
  let ?run = "sendBulkMessages scripted ?c ?w"
  have n: "length (results ?run) = 3" by (simp add: run_simps)
  have c1: "calls (trace ?run) ! 1 = (1, messageArgs ?c 1, Inl (Error ''timeout''))"
    by (simp add: run_simps)
  have c2: "snd (snd (calls (trace ?run) ! 2)) = rejected ''no funds''"
    by (simp add: run_simps)
  from failures_are_recorded_not_raised[of scripted ?c ?w, THEN conjunct1]
  have "failures_recorded ?run" .
  with n have "records_failure (snd (snd (calls (trace ?run) ! 1))) (results ?run ! 1)"
    and "records_failure (snd (snd (calls (trace ?run) ! 2))) (results ?run ! 2)"
    by (simp_all add: failures_recorded_def)
  with c1 c2 show ?thesis
    by (simp add: records_failure_def rejected_def failed_def errorMessage_def)
qed


text \<open>
  C8. For every method, a run of \<open>sendBulkMessages\<close> has one entry for each call it made,
  and the entry at index \<open>k\<close> is the \<open>entry\<close> of the outcome of the call of iteration \<open>k\<close>,
  for the recipient at index \<open>k\<close>: when the method returned a result reporting success,
  \<open>success\<close> true with the signature and the explorer link of that result; when it
  returned a result reporting a failure, \<open>success\<close> false with the empty signature and
  the error of that result; when it threw, \<open>success\<close> false with the empty signature and
  the text of what it threw. With the class's \<open>sendMessage\<close>, the entry is made from what
  the SDK gave to the call: a signature gives \<open>success\<close> true, that signature and the
  explorer link derived from it and from the network of the sender; a throw gives
  \<open>success\<close> false, the empty signature and the text of what was thrown.
\<close>

theorem entries_record_the_outcomes:
  "length (calls (trace (sendBulkMessages send config w))) =
     length (results (sendBulkMessages send config w)) \<and>
   (\<forall>k < length (results (sendBulkMessages send config w)).
      \<exists>out v. calls (trace (sendBulkMessages send config w)) ! k = (k, messageArgs config k, out) \<and>
              out = fst (send (messageArgs config k) v) \<and>
              results (sendBulkMessages send config w) ! k =
                entry (toBase58 (recipientAddresses config ! k)) out) \<and>
   (\<forall>k < length (results (sendBulkMessages (returning (sendMessage this)) config w)).
      \<exists>v. results (sendBulkMessages (returning (sendMessage this)) config w) ! k =
            (case fst (sdk_outcome this (messageArgs config k)
                         (messageInstructions (messageArgs config k)) v) of
               Inr sig \<Rightarrow>
                 \<lparr>signature = sig, success = True, error = None,
                  explorerUrl = Some (getExplorerUrl sig (network (this_config this))),
                  recipientAddress = toBase58 (recipientAddresses config ! k)\<rparr>
             | Inl e \<Rightarrow>
                 \<lparr>signature = '''', success = False, error = Some (errorMessage e),
                  explorerUrl = None,
                  recipientAddress = toBase58 (recipientAddresses config ! k)\<rparr>))"
proof -
  have general: "length (calls (trace (sendBulkMessages s config w))) =
       length (results (sendBulkMessages s config w)) \<and>
     (\<forall>k < length (results (sendBulkMessages s config w)).
        \<exists>out v. calls (trace (sendBulkMessages s config w)) ! k = (k, messageArgs config k, out) \<and>
                out = fst (s (messageArgs config k) v) \<and>
                results (sendBulkMessages s config w) ! k =
                  entry (toBase58 (recipientAddresses config ! k)) out)" for s
    using finished_entries[OF messages_finished[of s config w]]
    by (simp add: sendBulkMessages_def summary_fields)
  have "\<exists>v. results (sendBulkMessages (returning (sendMessage this)) config w) ! k =
            (case fst (sdk_outcome this (messageArgs config k)
                         (messageInstructions (messageArgs config k)) v) of
               Inr sig \<Rightarrow>
                 \<lparr>signature = sig, success = True, error = None,
                  explorerUrl = Some (getExplorerUrl sig (network (this_config this))),
                  recipientAddress = toBase58 (recipientAddresses config ! k)\<rparr>
             | Inl e \<Rightarrow>
                 \<lparr>signature = '''', success = False, error = Some (errorMessage e),
                  explorerUrl = None,
                  recipientAddress = toBase58 (recipientAddresses config ! k)\<rparr>)"
    if k: "k < length (results (sendBulkMessages (returning (sendMessage this)) config w))" for k
  proof -
    from general[of "returning (sendMessage this)"] k obtain out v where
      out: "out = fst (returning (sendMessage this) (messageArgs config k) v)" and
      ent: "results (sendBulkMessages (returning (sendMessage this)) config w) ! k =
              entry (toBase58 (recipientAddresses config ! k)) out"
      by blast
    from out have "out = Inr (fst (sendMessage this (messageArgs config k) v))"
      by (simp add: fst_returning)
    with ent have "results (sendBulkMessages (returning (sendMessage this)) config w) ! k =
        (case fst (sdk_outcome this (messageArgs config k)
                     (messageInstructions (messageArgs config k)) v) of
           Inr sig \<Rightarrow>
             \<lparr>signature = sig, success = True, error = None,
              explorerUrl = Some (getExplorerUrl sig (network (this_config this))),
              recipientAddress = toBase58 (recipientAddresses config ! k)\<rparr>
         | Inl e \<Rightarrow>
             \<lparr>signature = '''', success = False, error = Some (errorMessage e),
              explorerUrl = None,
              recipientAddress = toBase58 (recipientAddresses config ! k)\<rparr>)"
      by (simp add: sendMessage_sdk_outcome entry_def failed_def split: sum.splits)
    then show ?thesis by blast
  qed
  with general[of send] show ?thesis by blast
qed
theorem entries_record_the_outcomes_witness:
  "results (sendBulkMessages scripted (toRecipients None (Some True) [''A'', ''B'', ''C''])
              [sent ''s1'', Inl (Error ''timeout''), rejected ''no funds'']) ! 1 =
     \<lparr>signature = '''', success = False, error = Some ''timeout'', explorerUrl = None,
      recipientAddress = ''B''\<rparr> \<and>
   results (sendBulkMessages scripted (toRecipients None (Some True) [''A'', ''B'', ''C''])
              [sent ''s1'', Inl (Error ''timeout''), rejected ''no funds'']) ! 2 =
     \<lparr>signature = '''', success = False, error = Some ''no funds'', explorerUrl = None,
      recipientAddress = ''C''\<rparr> \<and>
   results (sendBulkMessages (returning (sendMessage devnetSender))
              (toRecipients None (Some True) [''A'', ''B''])
              [Inr ''s1'', Inl (Error ''timeout'')]) ! 0 =
     \<lparr>signature = ''s1'', success = True, error = None,
      explorerUrl = Some ''https://explorer.solana.com/tx/s1?cluster=devnet'',
      recipientAddress = ''A''\<rparr>"
proof -
  let ?c = "toRecipients None (Some True) [''A'', ''B'', ''C''] :: script BulkMessageConfig"
  let ?w = "[sent ''s1'', Inl (Error ''timeout''), rejected ''no funds'']"
  let ?run = "sendBulkMessages scripted ?c ?w"
  let ?d = "toRecipients None (Some True) [''A'', ''B''] :: ledger BulkMessageConfig"
  let ?v = "[Inr ''s1'', Inl (Error ''timeout'')] :: ledger"
  let ?own = "sendBulkMessages (returning (sendMessage devnetSender)) ?d ?v"
  have n: "length (results ?run) = 3" by (simp add: run_simps)
  have c1: "snd (snd (calls (trace ?run) ! 1)) = Inl (Error ''timeout'')"
    and c2: "snd (snd (calls (trace ?run) ! 2)) = rejected ''no funds''"
    by (simp_all add: run_simps)
  have rs: "recipientAddresses ?c = [PublicKey ''A'', PublicKey ''B'', PublicKey ''C'']"
    by (simp add: toRecipients_def)
  from entries_record_the_outcomes[of scripted ?c ?w, THEN conjunct2, THEN conjunct1] n
  have "\<exists>out v. calls (trace ?run) ! 1 = (1, messageArgs ?c 1, out) \<and>
          out = fst (scripted (messageArgs ?c 1) v) \<and>
          results ?run ! 1 = entry (toBase58 (recipientAddresses ?c ! 1)) out"
    and "\<exists>out v. calls (trace ?run) ! 2 = (2, messageArgs ?c 2, out) \<and>
          out = fst (scripted (messageArgs ?c 2) v) \<and>
          results ?run ! 2 = entry (toBase58 (recipientAddresses ?c ! 2)) out"
    by simp_all
  with c1 c2 rs have a: "results ?run ! 1 =
       \<lparr>signature = '''', success = False, error = Some ''timeout'', explorerUrl = None,
        recipientAddress = ''B''\<rparr>"
    and b: "results ?run ! 2 =
       \<lparr>signature = '''', success = False, error = Some ''no funds'', explorerUrl = None,
        recipientAddress = ''C''\<rparr>"
    by (auto simp: entry_def errorMessage_def rejected_def failed_def)
  have m: "length (results ?own) = 2"
    and s0: "signature (results ?own ! 0) = ''s1''"
    by (simp_all add: run_simps sender_simps)
  have net: "network (this_config devnetSender) = ''devnet''"
    and rd: "recipientAddresses ?d = [PublicKey ''A'', PublicKey ''B'']"
    by (simp_all add: devnetSender_def toRecipients_def)
  from m have "0 < length (results ?own)" by simp
  with entries_record_the_outcomes[of _ ?d ?v devnetSender, THEN conjunct2, THEN conjunct2]
  obtain v where "results ?own ! 0 =
      (case fst (sdk_outcome devnetSender (messageArgs ?d 0)
                   (messageInstructions (messageArgs ?d 0)) v) of
         Inr sig \<Rightarrow>
           \<lparr>signature = sig, success = True, error = None,
            explorerUrl = Some (getExplorerUrl sig (network (this_config devnetSender))),
            recipientAddress = toBase58 (recipientAddresses ?d ! 0)\<rparr>
       | Inl e \<Rightarrow>
           \<lparr>signature = '''', success = False, error = Some (errorMessage e),
            explorerUrl = None,
            recipientAddress = toBase58 (recipientAddresses ?d ! 0)\<rparr>)"
    by blast
  with s0 net rd have c: "results ?own ! 0 =
     \<lparr>signature = ''s1'', success = True, error = None,
      explorerUrl = Some ''https://explorer.solana.com/tx/s1?cluster=devnet'',
      recipientAddress = ''A''\<rparr>"
    by (auto simp: getExplorerUrl_def split: sum.splits)
  from a b c show ?thesis by simp
qed

text \<open>
  C9. Validation of the recipients file fails when the file cannot be accessed, when
  reading it fails, and when a line is not a valid address. Whenever validation fails,
  \<open>sendMessagesFromFile\<close> makes no call of the method, awaits no timer and returns
  \<open>totalSent\<close> 0, \<open>totalFailed\<close> 0, no results and \<open>overallSuccess\<close> false; so in this
  record \<open>overallSuccess\<close> is false although \<open>totalFailed\<close> is 0.
\<close>

theorem invalid_file_sends_nothing:
  "((\<exists>e. access fs (recipientsFile config) = Inl e) \<or>
    (\<exists>e. readFile fs (recipientsFile config) = Inl e) \<or>
    invalidAddresses (readRecipientsFile fs newPublicKey (recipientsFile config)) \<noteq> [] \<longrightarrow>
      \<not> isValid (readRecipientsFile fs newPublicKey (recipientsFile config))) \<and>
   (\<not> isValid (readRecipientsFile fs newPublicKey (recipientsFile config)) \<longrightarrow>
      totalSent (sendMessagesFromFile fs newPublicKey send config w) = 0 \<and>
      totalFailed (sendMessagesFromFile fs newPublicKey send config w) = 0 \<and>
      results (sendMessagesFromFile fs newPublicKey send config w) = [] \<and>
      \<not> overallSuccess (sendMessagesFromFile fs newPublicKey send config w) \<and>
      trace (sendMessagesFromFile fs newPublicKey send config w) = [] \<and>
      after (sendMessagesFromFile fs newPublicKey send config w) = w \<and>
      \<not> (overallSuccess (sendMessagesFromFile fs newPublicKey send config w) \<longleftrightarrow>
           totalFailed (sendMessagesFromFile fs newPublicKey send config w) = 0))"
proof -
  let ?p = "recipientsFile config"
  have 1: "\<not> isValid (readRecipientsFile fs newPublicKey ?p)" if "access fs ?p = Inl e" for e
    using that by (simp add: readRecipientsFile_def checkRecipientsFile_def)
  have 2: "\<not> isValid (readRecipientsFile fs newPublicKey ?p)" if "readFile fs ?p = Inl e" for e
    using that by (simp add: readRecipientsFile_def)
  have 3: "\<not> isValid (readRecipientsFile fs newPublicKey ?p)"
    if "invalidAddresses (readRecipientsFile fs newPublicKey ?p) \<noteq> []"
    using that
    by (auto simp: readRecipientsFile_def Let_def split: if_splits sum.splits prod.splits)
  have 4: "sendMessagesFromFile fs newPublicKey send config w = nothingSent w"
    if "\<not> isValid (readRecipientsFile fs newPublicKey ?p)"
    using that by (simp add: sendMessagesFromFile_def Let_def)
  from 1 2 3 4 show ?thesis by (auto simp: nothingSent_def)
qed

theorem invalid_file_sends_nothing_witness:
  "(\<exists>e. access noFile (recipientsFile (fromFile (Some True) ''recipients.txt'' :: script FileRecipientConfig)) = Inl e) \<and>
   \<not> overallSuccess (sendMessagesFromFile noFile (onlyKeys [''A''])
                        scripted (fromFile (Some True) ''recipients.txt'') [sent ''s1'']) \<and>
   totalFailed (sendMessagesFromFile noFile (onlyKeys [''A''])
                  scripted (fromFile (Some True) ''recipients.txt'') [sent ''s1'']) = 0 \<and>
   invalidAddresses (readRecipientsFile (fileWith (''A'' @ [CHR 0x0A] @ ''# note'' @ [CHR 0x0A] @ '' bad ''))
                       (onlyKeys [''A''])
                       (recipientsFile (fromFile (Some True) ''recipients.txt'' :: script FileRecipientConfig)))
     = [''bad''] \<and>
   results (sendMessagesFromFile (fileWith (''A'' @ [CHR 0x0A] @ ''# note'' @ [CHR 0x0A] @ '' bad ''))
              (onlyKeys [''A'']) scripted (fromFile (Some True) ''recipients.txt'') [sent ''s1'']) = [] \<and>
   trace (sendMessagesFromFile (fileWith (''A'' @ [CHR 0x0A] @ ''# note'' @ [CHR 0x0A] @ '' bad ''))
            (onlyKeys [''A'']) scripted (fromFile (Some True) ''recipients.txt'') [sent ''s1'']) = []"
proof -
  let ?c = "fromFile (Some True) ''recipients.txt'' :: script FileRecipientConfig"
  let ?f = "fileWith (''A'' @ [CHR 0x0A] @ ''# note'' @ [CHR 0x0A] @ '' bad '')"
  have a: "\<exists>e. access noFile (recipientsFile ?c) = Inl e" by (simp add: noFile_def)
  have b: "invalidAddresses (readRecipientsFile ?f (onlyKeys [''A'']) (recipientsFile ?c)) = [''bad'']"
    by (simp add: readRecipientsFile_def checkRecipientsFile_def fileWith_def fromFile_def
                  trim_def whiteSpaces_def hasPrefix_def strip.simps startsWithHash_def
                  toPublicKey_def
                  isValidPublicKey_def onlyKeys_def Let_def)
  note i1 = invalid_file_sends_nothing[of noFile ?c "onlyKeys [''A'']" scripted "[sent ''s1'']"]
  note i2 = invalid_file_sends_nothing[of ?f ?c "onlyKeys [''A'']" scripted "[sent ''s1'']"]
  from i1 a have c: "\<not> overallSuccess (sendMessagesFromFile noFile (onlyKeys [''A'']) scripted ?c [sent ''s1''])"
    "totalFailed (sendMessagesFromFile noFile (onlyKeys [''A'']) scripted ?c [sent ''s1'']) = 0"
    by blast+
  from b have "invalidAddresses (readRecipientsFile ?f (onlyKeys [''A'']) (recipientsFile ?c)) \<noteq> []"
    by simp
  with i2 have d: "results (sendMessagesFromFile ?f (onlyKeys [''A'']) scripted ?c [sent ''s1'']) = []"
    "trace (sendMessagesFromFile ?f (onlyKeys [''A'']) scripted ?c [sent ''s1'']) = []"
    by blast+
  from a b c d show ?thesis by simp
qed

text \<open>What \<open>strip\<close> returns starts with none of the sequences.\<close>

lemma strip_leaves_no_prefix:
  "find (\<lambda>ws. ws \<noteq> [] \<and> hasPrefix (strip seqs s) ws) seqs = None"
proof (induction seqs s rule: strip.induct)
  case (1 seqs s)
  show ?case
  proof (cases "find (\<lambda>ws. ws \<noteq> [] \<and> hasPrefix s ws) seqs")
    case None
    then have "strip seqs s = s" by (simp add: strip.simps)
    with None show ?thesis by simp
  next
    case (Some ws)
    then have "strip seqs s = strip seqs (drop (length ws) s)" by (simp add: strip.simps)
    with "1.IH"[OF Some] show ?thesis by simp
  qed
qed

text \<open>
  A recipients file that starts with a byte order mark and ends its lines with a carriage
  return and a line feed is valid, as \<^verbatim>\<open>trim()\<close> removes both, and both of its addresses
  are sent to.
\<close>

lemma byte_order_mark_is_trimmed:
  "validAddresses
     (readRecipientsFile
        (fileWith ([CHR 0xEF, CHR 0xBB, CHR 0xBF] @ ''A'' @ [CHR 0x0D, CHR 0x0A] @ ''B''
                   @ [CHR 0x0D, CHR 0x0A]))
        (onlyKeys [''A'', ''B'']) ''recipients.txt'') = [PublicKey ''A'', PublicKey ''B''] \<and>
   isValid
     (readRecipientsFile
        (fileWith ([CHR 0xEF, CHR 0xBB, CHR 0xBF] @ ''A'' @ [CHR 0x0D, CHR 0x0A] @ ''B''
                   @ [CHR 0x0D, CHR 0x0A]))
        (onlyKeys [''A'', ''B'']) ''recipients.txt'') \<and>
   totalSent
     (sendMessagesFromFile
        (fileWith ([CHR 0xEF, CHR 0xBB, CHR 0xBF] @ ''A'' @ [CHR 0x0D, CHR 0x0A] @ ''B''
                   @ [CHR 0x0D, CHR 0x0A]))
        (onlyKeys [''A'', ''B'']) scripted (fromFile (Some True) ''recipients.txt'')
        [sent ''s1'', sent ''s2'']) = 2"
  by (simp add: sendMessagesFromFile_def readRecipientsFile_def checkRecipientsFile_def
                validateRecipients_def fileWith_def fromFile_def trim_def whiteSpaces_def
                hasPrefix_def strip.simps startsWithHash_def toPublicKey_def
                isValidPublicKey_def onlyKeys_def run_simps)

text \<open>
  C10. In \<open>sendBulkMemoOnly\<close>: when \<open>messages\<close> is absent, the run makes exactly one call
  of the method, for iteration 0, and its message is the \<open>message\<close> of the configuration;
  when \<open>messages\<close> is the empty list, the run makes no call and awaits no timer, and
  returns both counters 0, no results and \<open>overallSuccess\<close> true; every entry of the
  results has the text \<open>memo-only\<close> as its \<open>recipientAddress\<close>.
\<close>

theorem memo_only_work_list:
  "(messages config = None \<longrightarrow>
      (\<exists>out. calls (trace (sendBulkMemoOnly send config w)) = [(0, memoArgs config 0, out)]) \<and>
      message (memoArgs config 0) = message config) \<and>
   (messages config = Some [] \<longrightarrow>
      trace (sendBulkMemoOnly send config w) = [] \<and>
      nothing_to_do (sendBulkMemoOnly send config w)) \<and>
   (\<forall>r \<in> set (results (sendBulkMemoOnly send config w)). recipientAddress r = ''memo-only'')"
proof -
  let ?st = "for_loop (bulkMemoBody send config) (length (memoMessages config)) 0 (initial w)"
  from memo_finished[of send config w]
  have fin: "finished send config (length (memoMessages config)) (memoArgs config)
               (\<lambda>i. ''memo-only'') ?st" .
  then have c: "consistent send (memoArgs config) (\<lambda>i. ''memo-only'') ?st"
    by (simp add: finished_def)
  have 1: "(\<exists>out. calls (events ?st) = [(0, memoArgs config 0, out)]) \<and>
           message (memoArgs config 0) = message config"
    if none: "messages config = None"
  proof -
    from none have n: "length (memoMessages config) = 1" by (simp add: memoMessages_def)
    from fin n have "length (results ?st) \<le> 1"
      and "length (results ?st) < 1 \<longrightarrow> results ?st \<noteq> []"
      by (simp_all add: finished_def)
    then have len: "length (results ?st) = 1" by (cases "results ?st") auto
    with consistent_length_calls[OF c] have lc: "length (calls (events ?st)) = 1" by simp
    from len consistent_nth[OF c, of 0] obtain out where
      "calls (events ?st) ! 0 = (0, memoArgs config 0, out)" by auto
    with lc have "calls (events ?st) = [(0, memoArgs config 0, out)]"
      by (cases "calls (events ?st)") auto
    moreover from none have "message (memoArgs config 0) = message config"
      by (simp add: memoArgs_def memoMessages_def)
    ultimately show ?thesis by blast
  qed
  have 2: "events ?st = [] \<and> nothing_to_do (summary ?st)" if "messages config = Some []"
    using that
    by (simp add: memoMessages_def for_loop.simps nothing_to_do_def summary_fields)
       (simp add: initial_def)
  have 3: "\<forall>r \<in> set (results ?st). recipientAddress r = ''memo-only''"
  proof -
    from c have "results ?st = map (\<lambda>(k, a, out). entry ''memo-only'' out) (calls (events ?st))"
      by (simp add: consistent_def)
    then have "set (results ?st) = (\<lambda>(k, a, out). entry ''memo-only'' out) ` set (calls (events ?st))"
      by (metis set_map)
    then show ?thesis by (auto simp: recipientAddress_entry)
  qed
  from 1 2 3 show ?thesis
    by (simp add: sendBulkMemoOnly_def summary_fields)
qed

theorem memo_only_work_list_witness:
  "messages (memos None None None :: script BulkMemoConfig) = None \<and>
   map (\<lambda>(k, args, out). (k, message args))
     (calls (trace (sendBulkMemoOnly scripted (memos None None None) [sent ''s1'', sent ''s2''])))
     = [(0, ''fallback'')] \<and>
   map recipientAddress
     (results (sendBulkMemoOnly scripted (memos None None None) [sent ''s1'', sent ''s2'']))
     = [''memo-only''] \<and>
   messages (memos (Some 5) None (Some []) :: script BulkMemoConfig) = Some [] \<and>
   trace (sendBulkMemoOnly scripted (memos (Some 5) None (Some [])) [sent ''s1'']) = [] \<and>
   nothing_to_do (sendBulkMemoOnly scripted (memos (Some 5) None (Some [])) [sent ''s1''])"
proof -
  let ?m = "memos None None None :: script BulkMemoConfig"
  let ?w = "[sent ''s1'', sent ''s2'']"
  let ?e = "memos (Some 5) None (Some []) :: script BulkMemoConfig"
  let ?v = "[sent ''s1'']"
  have a: "messages ?m = None" "message ?m = ''fallback''" by (simp_all add: memos_def)
  have b: "messages ?e = Some []" by (simp add: memos_def)
  have n: "length (results (sendBulkMemoOnly scripted ?m ?w)) = 1" by (simp add: run_simps)
  from memo_only_work_list[of ?m scripted ?w] a
  have "\<exists>out. calls (trace (sendBulkMemoOnly scripted ?m ?w)) = [(0, memoArgs ?m 0, out)]"
    and "message (memoArgs ?m 0) = ''fallback''"
    and all: "\<forall>r \<in> set (results (sendBulkMemoOnly scripted ?m ?w)). recipientAddress r = ''memo-only''"
    by simp_all
  then have c: "map (\<lambda>(k, args, out). (k, message args))
      (calls (trace (sendBulkMemoOnly scripted ?m ?w))) = [(0, ''fallback'')]"
    by auto
  from n obtain r where "results (sendBulkMemoOnly scripted ?m ?w) = [r]"
    by (cases "results (sendBulkMemoOnly scripted ?m ?w)") auto
  with all have d: "map recipientAddress (results (sendBulkMemoOnly scripted ?m ?w)) = [''memo-only'']"
    by simp
  from memo_only_work_list[of ?e scripted ?v] b
  have e: "trace (sendBulkMemoOnly scripted ?e ?v) = []"
    "nothing_to_do (sendBulkMemoOnly scripted ?e ?v)"
    by simp_all
  from a b c d e show ?thesis by simp
qed

end
